theory Spec2Isabelle
  imports Main
begin

section \<open>Data model of the duel engine\<close>

text \<open>
  The engine of \<^verbatim>\<open>autork/engine.py\<close> is embedded with explicit state passing.
  Python integers are unbounded, hence \<^typ>\<open>int\<close>. The trace sink only prints and is
  left out; every other assignment of the source is an update of a record below.
\<close>

text \<open>\<^verbatim>\<open>config.GameSettings\<close>: a flat set of integer parameters.\<close>

record GameSettings =
  MAX_TURNS :: int
  START_GOLD :: int
  START_TERRITORY :: int
  NEUTRAL_TERRITORY :: int
  START_ATTACK :: int
  START_DEFENSE :: int
  GOLD_PER_LAND :: int
  EXPAND_BASE :: int
  EXPAND_STEP :: int
  ATK_BASE :: int
  ATK_K :: int
  DEF_BASE :: int
  DEF_K :: int
  MAINT_ATK :: int
  MAINT_DEF :: int
  SCOUT_COST :: int

text \<open>The module-level instance \<^verbatim>\<open>settings = GameSettings()\<close> with the class defaults.\<close>

definition settings :: GameSettings where
  "settings = \<lparr> MAX_TURNS = 200, START_GOLD = 50, START_TERRITORY = 30,
     NEUTRAL_TERRITORY = 40, START_ATTACK = 0, START_DEFENSE = 0, GOLD_PER_LAND = 1,
     EXPAND_BASE = 10, EXPAND_STEP = 1, ATK_BASE = 20, ATK_K = 1, DEF_BASE = 9, DEF_K = 3,
     MAINT_ATK = 4, MAINT_DEF = 1, SCOUT_COST = 20 \<rparr>"

text \<open>\<^verbatim>\<open>class PlayerState\<close>; the object keeps a reference to its settings.\<close>

record PlayerState =
  cfg :: GameSettings
  gold :: int
  territory :: int
  attack :: int
  defense :: int
  expanded_total :: int
  pending_expands :: int
  has_enemy_intel :: bool

text \<open>\<^verbatim>\<open>PlayerState.__init__\<close>\<close>

definition new_player :: "GameSettings \<Rightarrow> PlayerState" where
  "new_player c = \<lparr> cfg = c, gold = START_GOLD c, territory = START_TERRITORY c,
     attack = START_ATTACK c, defense = START_DEFENSE c, expanded_total = 0,
     pending_expands = 0, has_enemy_intel = False \<rparr>"

section \<open>Economy\<close>

definition income :: "PlayerState \<Rightarrow> int" where
  "income p = territory p * GOLD_PER_LAND (cfg p)"

definition upkeep_cost :: "PlayerState \<Rightarrow> int" where
  "upkeep_cost p = attack p * MAINT_ATK (cfg p) + defense p * MAINT_DEF (cfg p)"

text \<open>
  The \<^verbatim>\<open>while deficit > 0 and (self.attack or self.defense)\<close> loop of
  \<^verbatim>\<open>apply_upkeep\<close>. A Python integer is true when it is not zero, so a negative unit
  count keeps the loop running: the loop need not end, and \<open>None\<close> stands for that.
\<close>

partial_function (option) upkeep_loop :: "int \<Rightarrow> PlayerState \<Rightarrow> PlayerState option" where
  "upkeep_loop deficit p =
     (if deficit > 0 \<and> (attack p \<noteq> 0 \<or> defense p \<noteq> 0) then
        (if attack p \<noteq> 0 then
           upkeep_loop (deficit - MAINT_ATK (cfg p))
             (p\<lparr>attack := attack p - 1, gold := gold p + MAINT_ATK (cfg p)\<rparr>)
         else if defense p \<noteq> 0 then
           upkeep_loop (deficit - MAINT_DEF (cfg p))
             (p\<lparr>defense := defense p - 1, gold := gold p + MAINT_DEF (cfg p)\<rparr>)
         else upkeep_loop deficit p)
      else Some p)"

declare upkeep_loop.simps [code]

definition apply_upkeep :: "PlayerState \<Rightarrow> PlayerState option" where
  "apply_upkeep p =
     (let q = p\<lparr>gold := gold p - upkeep_cost p\<rparr> in
      if gold q \<ge> 0 then Some q
      else (case upkeep_loop (- gold q) q of
              None \<Rightarrow> None
            | Some r \<Rightarrow> Some (if gold r < 0 then r\<lparr>gold := 0\<rparr> else r)))"

section \<open>Purchases\<close>

definition expand_price :: "PlayerState \<Rightarrow> int \<Rightarrow> int" where
  "expand_price p extra = EXPAND_BASE (cfg p) + EXPAND_STEP (cfg p) * (expanded_total p + extra)"

text \<open>
  The loop of \<^verbatim>\<open>pay_for_expands\<close>, on the pair (\<^verbatim>\<open>bought\<close>, player); it stops at
  \<^verbatim>\<open>break\<close> or when \<^verbatim>\<open>bought\<close> reaches \<^verbatim>\<open>wanted\<close>.
\<close>

function pay_loop :: "int \<Rightarrow> int \<Rightarrow> PlayerState \<Rightarrow> int \<times> PlayerState" where
  "pay_loop wanted bought p =
     (if bought < wanted then
        (let cost = expand_price p bought in
         if gold p < cost then (bought, p)
         else pay_loop wanted (bought + 1) (p\<lparr>gold := gold p - cost\<rparr>))
      else (bought, p))"
  by pat_completeness auto
termination
  by (relation "measure (\<lambda>(wanted, bought, p). nat (wanted - bought))") auto

definition pay_for_expands :: "PlayerState \<Rightarrow> int \<Rightarrow> int \<times> PlayerState" where
  "pay_for_expands p wanted =
     (case pay_loop wanted 0 p of (bought, q) \<Rightarrow> (bought, q\<lparr>pending_expands := bought\<rparr>))"

definition attack_price :: "PlayerState \<Rightarrow> int" where
  "attack_price p = ATK_BASE (cfg p) + ATK_K (cfg p) * attack p"

definition defense_price :: "PlayerState \<Rightarrow> int" where
  "defense_price p = DEF_BASE (cfg p) + DEF_K (cfg p) * defense p"

text \<open>
  The loops of \<^verbatim>\<open>buy_attack\<close> and \<^verbatim>\<open>buy_defense\<close> on the pair (\<^verbatim>\<open>spent\<close>, player).
  With a price that is not positive they never end.
\<close>

partial_function (option) buy_attack_loop ::
  "int \<Rightarrow> int \<Rightarrow> PlayerState \<Rightarrow> (int \<times> PlayerState) option" where
  "buy_attack_loop gold_limit spent p =
     (if gold_limit - spent \<ge> attack_price p then
        buy_attack_loop gold_limit (spent + attack_price p) (p\<lparr>attack := attack p + 1\<rparr>)
      else Some (spent, p))"

declare buy_attack_loop.simps [code]

definition buy_attack :: "PlayerState \<Rightarrow> int \<Rightarrow> (int \<times> PlayerState) option" where
  "buy_attack p gold_limit =
     (case buy_attack_loop gold_limit 0 p of
        None \<Rightarrow> None
      | Some (spent, q) \<Rightarrow> Some (spent, q\<lparr>gold := gold q - spent\<rparr>))"

partial_function (option) buy_defense_loop ::
  "int \<Rightarrow> int \<Rightarrow> PlayerState \<Rightarrow> (int \<times> PlayerState) option" where
  "buy_defense_loop gold_limit spent p =
     (if gold_limit - spent \<ge> defense_price p then
        buy_defense_loop gold_limit (spent + defense_price p) (p\<lparr>defense := defense p + 1\<rparr>)
      else Some (spent, p))"

declare buy_defense_loop.simps [code]

definition buy_defense :: "PlayerState \<Rightarrow> int \<Rightarrow> (int \<times> PlayerState) option" where
  "buy_defense p gold_limit =
     (case buy_defense_loop gold_limit 0 p of
        None \<Rightarrow> None
      | Some (spent, q) \<Rightarrow> Some (spent, q\<lparr>gold := gold q - spent\<rparr>))"

text \<open>\<^verbatim>\<open>_refund_attack\<close>, \<^verbatim>\<open>_refund_defense\<close>: the pair (refund, player).\<close>

definition refund_attack :: "PlayerState \<Rightarrow> int \<Rightarrow> int \<times> PlayerState" where
  "refund_attack p units0 =
     (let units = max 0 (min units0 (attack p));
          refund = units * (ATK_BASE (cfg p) div 2)
      in (refund, p\<lparr>attack := attack p - units, gold := gold p + refund\<rparr>))"

definition refund_defense :: "PlayerState \<Rightarrow> int \<Rightarrow> int \<times> PlayerState" where
  "refund_defense p units0 =
     (let units = max 0 (min units0 (defense p));
          refund = units * (DEF_BASE (cfg p) div 2)
      in (refund, p\<lparr>defense := defense p - units, gold := gold p + refund\<rparr>))"

section \<open>Commands, observations and strategies\<close>

text \<open>
  A command is a Python dict from strings to arbitrary values. The values modelled are
  integers, booleans and \<^verbatim>\<open>None\<close>; \<^verbatim>\<open>int(v)\<close> raises \<^verbatim>\<open>TypeError\<close> on \<^verbatim>\<open>None\<close>.
  Strings and floats are outside the model.
\<close>

datatype pyval = PyInt int | PyBool bool | PyNone

datatype error = TypeError | StrategyError

type_synonym Command = "string \<rightharpoonup> pyval"

text \<open>\<^verbatim>\<open>int(v)\<close>\<close>

fun py_int :: "pyval \<Rightarrow> error + int" where
  "py_int (PyInt i) = Inr i"
| "py_int (PyBool b) = Inr (if b then 1 else 0)"
| "py_int PyNone = Inl TypeError"

text \<open>The truth value of \<^verbatim>\<open>v\<close> in \<^verbatim>\<open>if v:\<close>\<close>

fun truthy :: "pyval \<Rightarrow> bool" where
  "truthy (PyInt i) = (i \<noteq> 0)"
| "truthy (PyBool b) = b"
| "truthy PyNone = False"

text \<open>\<^verbatim>\<open>cmd.get(key, default)\<close>\<close>

definition cmd_get :: "Command \<Rightarrow> string \<Rightarrow> pyval \<Rightarrow> pyval" where
  "cmd_get cmd key dflt = (case cmd key of None \<Rightarrow> dflt | Some v \<Rightarrow> v)"

text \<open>\<^verbatim>\<open>int(cmd.get(key, 0))\<close>\<close>

definition cmd_int :: "Command \<Rightarrow> string \<Rightarrow> error + int" where
  "cmd_int cmd key = py_int (cmd_get cmd key (PyInt 0))"

text \<open>
  The outcome of engine code: \<open>None\<close> when a loop never ends, \<open>Some (Inl e)\<close> when the
  exception \<open>e\<close> leaves the function, \<open>Some (Inr x)\<close> when it returns \<open>x\<close>.
\<close>

type_synonym 'a outcome = "(error + 'a) option"

definition returns :: "'a \<Rightarrow> 'a outcome" where
  "returns x = Some (Inr x)"

definition and_then :: "'a outcome \<Rightarrow> ('a \<Rightarrow> 'b outcome) \<Rightarrow> 'b outcome" where
  "and_then m f = (case m of None \<Rightarrow> None | Some (Inl e) \<Rightarrow> Some (Inl e) | Some (Inr x) \<Rightarrow> f x)"

text \<open>The four numbers shown of a player in observations, snapshots and results.\<close>

record Stats =
  st_territory :: int
  st_gold :: int
  st_attack :: int
  st_defense :: int

definition stats_of :: "PlayerState \<Rightarrow> Stats" where
  "stats_of p = \<lparr> st_territory = territory p, st_gold = gold p, st_attack = attack p,
     st_defense = defense p \<rparr>"

record Prices =
  price_expand_next :: int
  price_buy_attack :: int
  price_buy_defense :: int
  price_scout :: int

text \<open>The \<^verbatim>\<open>"enemy"\<close> entry: the territory always, the rest only with intel.\<close>

record Enemy =
  en_territory :: int
  en_gold :: "int option"
  en_attack :: "int option"
  en_defense :: "int option"

record Observation =
  obs_turn :: int
  my :: Stats
  enemy :: Enemy
  obs_neutral_territory :: int
  prices :: Prices
  limits_gold :: int

text \<open>
  What \<^verbatim>\<open>step\<close> can raise: an \<^verbatim>\<open>Exception\<close>, with the flag saying whether formatting it
  (its \<^verbatim>\<open>__str__\<close>) returns, or an exception that does not derive from \<^verbatim>\<open>Exception\<close>
  (\<^verbatim>\<open>KeyboardInterrupt\<close>, \<^verbatim>\<open>SystemExit\<close>), which \<^verbatim>\<open>except Exception\<close> lets through.
\<close>

datatype raised = PyException bool | PyBaseException

text \<open>
  A strategy object: its private state, \<^verbatim>\<open>reset\<close> (which may raise) and \<^verbatim>\<open>step\<close>,
  which raises, returns something that is not a dict, or returns a dict, and leaves the
  object in a new state in every case. \<open>sformat\<close> says whether formatting the object in an
  f-string (its \<^verbatim>\<open>__format__\<close>, \<^verbatim>\<open>__str__\<close> or \<^verbatim>\<open>__repr__\<close>) returns in the given state; the
  engine's error line formats the object and the exception. A returned dict is a plain dict
  with string keys. A call that never ends is outside the model.
\<close>

datatype step_result = StepRaised raised | StepNotDict | StepDict Command

record 's Strategy =
  sstate :: 's
  sreset :: "'s \<Rightarrow> Observation \<Rightarrow> error + 's"
  sstep :: "'s \<Rightarrow> Observation \<Rightarrow> step_result \<times> 's"
  sformat :: "'s \<Rightarrow> bool"

record Snapshot =
  snap_turn :: int
  snap_neutral :: int
  snap_p1 :: Stats
  snap_p2 :: Stats

datatype Winner = player1 | player2 | draw

record Result =
  winner :: "Winner option"
  turns :: int
  res_neutral :: int
  res_p1 :: Stats
  res_p2 :: Stats

text \<open>\<^verbatim>\<open>class Engine\<close>\<close>

record ('a, 'b) Engine =
  ecfg :: GameSettings
  s1 :: "'a Strategy"
  s2 :: "'b Strategy"
  turn :: int
  neutral_territory :: int
  p1 :: PlayerState
  p2 :: PlayerState
  history :: "Snapshot list"

section \<open>Engine operations\<close>

definition record_snapshot :: "('a, 'b) Engine \<Rightarrow> ('a, 'b) Engine" where
  "record_snapshot e = e\<lparr>history := history e @
     [\<lparr> snap_turn = turn e, snap_neutral = neutral_territory e,
        snap_p1 = stats_of (p1 e), snap_p2 = stats_of (p2 e) \<rparr>]\<rparr>"

definition reset :: "('a, 'b) Engine \<Rightarrow> ('a, 'b) Engine" where
  "reset e = record_snapshot (e\<lparr>turn := 0, neutral_territory := NEUTRAL_TERRITORY (ecfg e),
     p1 := new_player (ecfg e), p2 := new_player (ecfg e), history := []\<rparr>)"

text \<open>\<^verbatim>\<open>Engine.__init__\<close>; \<^verbatim>\<open>game_settings or _default_settings\<close>.\<close>

definition new_engine ::
  "'a Strategy \<Rightarrow> 'b Strategy \<Rightarrow> GameSettings option \<Rightarrow> ('a, 'b) Engine" where
  "new_engine strat_a strat_b game_settings =
     reset \<lparr> ecfg = (case game_settings of None \<Rightarrow> settings | Some g \<Rightarrow> g),
       s1 = strat_a, s2 = strat_b, turn = 0, neutral_territory = 0,
       p1 = new_player (case game_settings of None \<Rightarrow> settings | Some g \<Rightarrow> g),
       p2 = new_player (case game_settings of None \<Rightarrow> settings | Some g \<Rightarrow> g),
       history = [] \<rparr>"

definition prepare_obs ::
  "('a, 'b) Engine \<Rightarrow> PlayerState \<Rightarrow> PlayerState \<Rightarrow> Observation \<times> Prices" where
  "prepare_obs e me en =
     (let pr = \<lparr> price_expand_next = expand_price me 0, price_buy_attack = attack_price me,
                 price_buy_defense = defense_price me, price_scout = SCOUT_COST (ecfg e) \<rparr>
      in (\<lparr> obs_turn = turn e, my = stats_of me,
            enemy = (if has_enemy_intel me
                     then \<lparr> en_territory = territory en, en_gold = Some (gold en),
                            en_attack = Some (attack en), en_defense = Some (defense en) \<rparr>
                     else \<lparr> en_territory = territory en, en_gold = None,
                            en_attack = None, en_defense = None \<rparr>),
            obs_neutral_territory = neutral_territory e, prices = pr,
            limits_gold = gold me \<rparr>, pr))"

definition observation :: "('a, 'b) Engine \<Rightarrow> int \<Rightarrow> Observation" where
  "observation e pid =
     fst (if pid = 1 then prepare_obs e (p1 e) (p2 e) else prepare_obs e (p2 e) (p1 e))"

text \<open>
  \<^verbatim>\<open>_safe_step\<close>: the command and the strategy object after the call, or the exception
  that leaves it. A result that is not a dict raises \<^verbatim>\<open>TypeError\<close> inside the \<^verbatim>\<open>try\<close>.
  The \<^verbatim>\<open>except Exception\<close> branch first builds the f-string
  \<^verbatim>\<open>f"[ERROR] Strategy {strat} crashed: {exc}"\<close>, which formats the strategy object and
  then the exception: if either raises, that exception leaves \<^verbatim>\<open>_safe_step\<close>. An
  exception of \<^verbatim>\<open>step\<close> that is not an \<^verbatim>\<open>Exception\<close> is not caught at all.
\<close>

definition safe_step :: "'s Strategy \<Rightarrow> Observation \<Rightarrow> error + (Command \<times> 's Strategy)" where
  "safe_step strat obs =
     (case sstep strat (sstate strat) obs of
        (StepDict res, st) \<Rightarrow> Inr (res, strat\<lparr>sstate := st\<rparr>)
      | (StepNotDict, st) \<Rightarrow>
          if sformat strat st then Inr (Map.empty, strat\<lparr>sstate := st\<rparr>)
          else Inl StrategyError
      | (StepRaised (PyException str_returns), st) \<Rightarrow>
          if sformat strat st \<and> str_returns then Inr (Map.empty, strat\<lparr>sstate := st\<rparr>)
          else Inl StrategyError
      | (StepRaised PyBaseException, st) \<Rightarrow> Inl StrategyError)"

text \<open>
  \<^verbatim>\<open>_apply_commands\<close> on the player object it is given. The arguments \<^verbatim>\<open>prices\<close> (never
  read) and \<^verbatim>\<open>pid\<close> (only printed) are left out; \<open>c\<close> is \<^verbatim>\<open>self.cfg\<close>.
\<close>

definition apply_commands :: "GameSettings \<Rightarrow> PlayerState \<Rightarrow> Command \<Rightarrow> PlayerState outcome" where
  "apply_commands c player cmd =
     and_then (Some (cmd_int cmd ''sell_attack'')) (\<lambda>v1.
       let sell_atk = max 0 v1;
           pa = (if sell_atk \<noteq> 0 then snd (refund_attack player sell_atk) else player)
       in and_then (Some (cmd_int cmd ''sell_defense'')) (\<lambda>v2.
       let sell_def = max 0 v2;
           pb = (if sell_def \<noteq> 0 then snd (refund_defense pa sell_def) else pa)
       in and_then (Some (cmd_int cmd ''expand'')) (\<lambda>v3.
       let want_expand = max 0 v3;
           pc = snd (pay_for_expands pb want_expand);
           pd = (if truthy (cmd_get cmd ''scout'' (PyBool False)) then
                   (if gold pc \<ge> SCOUT_COST c then pc\<lparr>gold := gold pc - SCOUT_COST c\<rparr>
                    else pc)
                 else pc)
       in and_then (Some (cmd_int cmd ''spend_attack'')) (\<lambda>v4.
       let atk_spend = min (max 0 v4) (gold pd)
       in and_then (map_option Inr (buy_attack pd atk_spend)) (\<lambda>(real_atk, pe).
       and_then (Some (cmd_int cmd ''spend_defense'')) (\<lambda>v5.
       let def_spend = min (max 0 v5) (gold pe)
       in and_then (map_option Inr (buy_defense pe def_spend)) (\<lambda>(real_def, pf).
       returns pf)))))))"

text \<open>
  The call \<^verbatim>\<open>self._apply_commands(self.p1, cmd1, prices1, pid=1)\<close> mutates the object
  \<^verbatim>\<open>self.p1\<close> in place (\<^verbatim>\<open>self.p2\<close> for \<^verbatim>\<open>pid=2\<close>): the updated player is written back.
\<close>

definition apply_commands_pid ::
  "('a, 'b) Engine \<Rightarrow> nat \<Rightarrow> Command \<Rightarrow> ('a, 'b) Engine outcome" where
  "apply_commands_pid e pid cmd =
     (if pid = 1 then and_then (apply_commands (ecfg e) (p1 e) cmd) (\<lambda>r. returns (e\<lparr>p1 := r\<rparr>))
      else and_then (apply_commands (ecfg e) (p2 e) cmd) (\<lambda>r. returns (e\<lparr>p2 := r\<rparr>)))"

definition allocate_neutral :: "('a, 'b) Engine \<Rightarrow> ('a, 'b) Engine" where
  "allocate_neutral e =
     (let a1 = pending_expands (p1 e);
          a2 = pending_expands (p2 e);
          N = neutral_territory e;
          contested = min a1 (min a2 N);
          remaining_neutral = N - contested;
          r1_unique = a1 - contested;
          r2_unique = a2 - contested;
          give1 = min r1_unique remaining_neutral;
          remaining_neutral1 = remaining_neutral - give1;
          give2 = min r2_unique remaining_neutral1;
          remaining_neutral2 = remaining_neutral1 - give2
      in e\<lparr> p1 := (p1 e)\<lparr>territory := territory (p1 e) + give1,
                   expanded_total := expanded_total (p1 e) + give1, pending_expands := 0\<rparr>,
            p2 := (p2 e)\<lparr>territory := territory (p2 e) + give2,
                   expanded_total := expanded_total (p2 e) + give2, pending_expands := 0\<rparr>,
            neutral_territory := remaining_neutral2 + contested \<rparr>)"

definition resolve_combat :: "('a, 'b) Engine \<Rightarrow> ('a, 'b) Engine" where
  "resolve_combat e =
     (let dmg12 = max 0 (attack (p1 e) - defense (p2 e));
          dmg21 = max 0 (attack (p2 e) - defense (p1 e));
          loss1 = min dmg21 (territory (p1 e));
          loss2 = min dmg12 (territory (p2 e))
      in e\<lparr> p1 := (p1 e)\<lparr>territory := territory (p1 e) - loss1\<rparr>,
            p2 := (p2 e)\<lparr>territory := territory (p2 e) - loss2\<rparr>,
            neutral_territory := neutral_territory e + (loss1 + loss2) \<rparr>)"

definition check_winner :: "('a, 'b) Engine \<Rightarrow> bool \<Rightarrow> Winner option" where
  "check_winner e is_end =
     (if territory (p1 e) = 0 \<and> territory (p2 e) = 0 then Some draw
      else if territory (p1 e) = 0 then Some player2
      else if territory (p2 e) = 0 then Some player1
      else if is_end then
        (let g1 = gold (p1 e); g2 = gold (p2 e) in
         if g1 = g2 then Some draw else if g1 > g2 then Some player1 else Some player2)
      else None)"

definition winner_declared :: "('a, 'b) Engine \<Rightarrow> bool" where
  "winner_declared e = (check_winner e False \<noteq> None)"

definition result :: "('a, 'b) Engine \<Rightarrow> bool \<Rightarrow> Result" where
  "result e is_end = \<lparr> winner = check_winner e is_end, turns = turn e,
     res_neutral = neutral_territory e, res_p1 = stats_of (p1 e), res_p2 = stats_of (p2 e) \<rparr>"

text \<open>
  \<^verbatim>\<open>_play_turn\<close>. Economy and upkeep for \<^verbatim>\<open>p1\<close> then \<^verbatim>\<open>p2\<close>, both observations, both
  \<^verbatim>\<open>step\<close> calls, both commands, allocation, combat, intel.
\<close>

definition play_turn :: "('a, 'b) Engine \<Rightarrow> ('a, 'b) Engine outcome" where
  "play_turn e =
     and_then (map_option Inr (apply_upkeep ((p1 e)\<lparr>gold := gold (p1 e) + income (p1 e)\<rparr>))) (\<lambda>q1.
     and_then (map_option Inr (apply_upkeep ((p2 e)\<lparr>gold := gold (p2 e) + income (p2 e)\<rparr>))) (\<lambda>q2.
       let e1 = e\<lparr>p1 := q1, p2 := q2\<rparr>;
           obs1 = fst (prepare_obs e1 (p1 e1) (p2 e1));
           obs2 = fst (prepare_obs e1 (p2 e1) (p1 e1))
       in and_then (Some (safe_step (s1 e1) obs1)) (\<lambda>(cmd1, t1).
          and_then (Some (safe_step (s2 e1) obs2)) (\<lambda>(cmd2, t2).
            let e2 = e1\<lparr>s1 := t1, s2 := t2\<rparr>
            in and_then (apply_commands_pid e2 1 cmd1) (\<lambda>e3.
               and_then (apply_commands_pid e3 2 cmd2) (\<lambda>e4.
                 let e5 = resolve_combat (allocate_neutral e4)
                 in returns (e5\<lparr>
                      p1 := (p1 e5)\<lparr>has_enemy_intel :=
                              truthy (cmd_get cmd1 ''scout'' (PyBool False))\<rparr>,
                      p2 := (p2 e5)\<lparr>has_enemy_intel :=
                              truthy (cmd_get cmd2 ''scout'' (PyBool False))\<rparr>
                    \<rparr>)))))))"

text \<open>\<^verbatim>\<open>_handle_gui_events\<close> of the base class.\<close>

definition handle_gui_events :: "('a, 'b) Engine \<Rightarrow> bool" where
  "handle_gui_events e = True"

text \<open>The \<^verbatim>\<open>while self.turn < self.cfg.MAX_TURNS\<close> loop of \<^verbatim>\<open>run\<close>.\<close>

partial_function (option) run_loop :: "('a, 'b) Engine \<Rightarrow> ('a, 'b) Engine outcome" where
  "run_loop e =
     (if turn e < MAX_TURNS (ecfg e) then
        (if \<not> handle_gui_events e then Some (Inr e)
         else (case play_turn (e\<lparr>turn := turn e + 1\<rparr>) of
                 None \<Rightarrow> None
               | Some (Inl err) \<Rightarrow> Some (Inl err)
               | Some (Inr e') \<Rightarrow> if winner_declared e' then Some (Inr e') else run_loop e'))
      else Some (Inr e))"

declare run_loop.simps [code]

text \<open>\<^verbatim>\<open>run\<close>: the result and the engine object as the call leaves it.\<close>

definition run :: "('a, 'b) Engine \<Rightarrow> (Result \<times> ('a, 'b) Engine) outcome" where
  "run e =
     (let e0 = reset e in
      and_then (Some (sreset (s1 e0) (sstate (s1 e0)) (observation e0 1))) (\<lambda>t1.
        let e1 = e0\<lparr>s1 := (s1 e0)\<lparr>sstate := t1\<rparr>\<rparr> in
        and_then (Some (sreset (s2 e1) (sstate (s2 e1)) (observation e1 2))) (\<lambda>t2.
          let e2 = e1\<lparr>s2 := (s2 e1)\<lparr>sstate := t2\<rparr>\<rparr> in
          and_then (run_loop e2) (\<lambda>e3. returns (result e3 True, e3)))))"

section \<open>The specification's formulas and example states\<close>

text \<open>
  The allocation and combat formulas as the specification words them: the contested
  cells, the grant to agent A, the grant to agent B from what A left, the damage and the
  territory loss.
\<close>

definition spec_contested :: "int \<Rightarrow> int \<Rightarrow> int \<Rightarrow> int" where
  "spec_contested a b N = min a (min b N)"

definition spec_grantA :: "int \<Rightarrow> int \<Rightarrow> int \<Rightarrow> int" where
  "spec_grantA a b N = min (a - spec_contested a b N) (N - spec_contested a b N)"

definition spec_grantB :: "int \<Rightarrow> int \<Rightarrow> int \<Rightarrow> int" where
  "spec_grantB a b N =
     min (b - spec_contested a b N) (N - spec_contested a b N - spec_grantA a b N)"

definition spec_damage :: "int \<Rightarrow> int \<Rightarrow> int" where
  "spec_damage atk dfn = max 0 (atk - dfn)"

definition spec_loss :: "int \<Rightarrow> int \<Rightarrow> int" where
  "spec_loss damage_taken current_territory = min damage_taken current_territory"

text \<open>
  The states of \<^verbatim>\<open>tests/test_engine.py\<close>: \<^verbatim>\<open>DummyStrategy\<close> returns the empty dict,
  \<^verbatim>\<open>_fresh_engine()\<close> is an engine of two such strategies with the default settings, and
  the tests then overwrite bids, forces or gold.
\<close>

definition dummy_strategy :: "unit Strategy" where
  "dummy_strategy = \<lparr> sstate = (), sreset = (\<lambda>s obs. Inr s),
     sstep = (\<lambda>s obs. (StepDict Map.empty, s)), sformat = (\<lambda>s. True) \<rparr>"

definition fresh_engine :: "(unit, unit) Engine" where
  "fresh_engine = new_engine dummy_strategy dummy_strategy None"

definition bids_engine :: "int \<Rightarrow> int \<Rightarrow> int \<Rightarrow> (unit, unit) Engine" where
  "bids_engine a b N = fresh_engine\<lparr> neutral_territory := N,
     p1 := (p1 fresh_engine)\<lparr>pending_expands := a\<rparr>,
     p2 := (p2 fresh_engine)\<lparr>pending_expands := b\<rparr> \<rparr>"

definition combat_engine :: "(unit, unit) Engine" where
  "combat_engine = fresh_engine\<lparr> neutral_territory := 0,
     p1 := (p1 fresh_engine)\<lparr>attack := 12, defense := 5, territory := 30\<rparr>,
     p2 := (p2 fresh_engine)\<lparr>attack := 5, defense := 10, territory := 30\<rparr> \<rparr>"

definition timeout_engine :: "(unit, unit) Engine" where
  "timeout_engine = fresh_engine\<lparr>
     p1 := (p1 fresh_engine)\<lparr>gold := 100\<rparr>, p2 := (p2 fresh_engine)\<lparr>gold := 50\<rparr> \<rparr>"

text \<open>The player of \<^verbatim>\<open>test_upkeep_auto_demobilise\<close>: three attack units, two defense units, two gold.\<close>

definition upkeep_player :: PlayerState where
  "upkeep_player = (new_player settings)\<lparr>attack := 3, defense := 2, gold := 2\<rparr>"

text \<open>
  What the liquidation loop guarantees of its result \<open>r\<close>, started at \<open>p\<close> with deficit
  \<open>d\<close>: besides the bounds and the gold account, that it stops only with the deficit
  covered or both unit types exhausted, and that every unit it liquidated was liquidated
  at a positive deficit (the \<open>j\<close>-th attack unit with all defense units still held, the
  \<open>k\<close>-th defense unit with no attack unit left).
\<close>

definition liquidated :: "int \<Rightarrow> PlayerState \<Rightarrow> PlayerState \<Rightarrow> bool" where
  "liquidated d p r \<longleftrightarrow>
     cfg r = cfg p \<and> territory r = territory p \<and> expanded_total r = expanded_total p
     \<and> pending_expands r = pending_expands p \<and> has_enemy_intel r = has_enemy_intel p
     \<and> 0 \<le> attack r \<and> attack r \<le> attack p \<and> 0 \<le> defense r \<and> defense r \<le> defense p
     \<and> (defense r < defense p \<longrightarrow> attack r = 0)
     \<and> gold r = gold p + (attack p - attack r) * MAINT_ATK (cfg p)
                      + (defense p - defense r) * MAINT_DEF (cfg p)
     \<and> (d + gold p \<le> gold r \<or> (attack r = 0 \<and> defense r = 0))
     \<and> (\<forall>j\<in>{attack r<..attack p}. 0 < d - (attack p - j) * MAINT_ATK (cfg p))
     \<and> (\<forall>k\<in>{defense r<..defense p}.
           0 < d - attack p * MAINT_ATK (cfg p) - (defense p - k) * MAINT_DEF (cfg p))"

text \<open>
  Settings under which the purchase loops end: positive base prices and prices that do
  not fall as units are bought.
\<close>

definition priced :: "GameSettings \<Rightarrow> bool" where
  "priced c \<longleftrightarrow> 0 < ATK_BASE c \<and> 0 \<le> ATK_K c \<and> 0 < DEF_BASE c \<and> 0 \<le> DEF_K c"

text \<open>Settings whose base prices, and with them the refunds of a sale, are not negative.\<close>

definition refunding :: "GameSettings \<Rightarrow> bool" where
  "refunding c \<longleftrightarrow> 0 \<le> ATK_BASE c \<and> 0 \<le> DEF_BASE c"

text \<open>A player whose gold and unit counts are not negative.\<close>

definition sound :: "PlayerState \<Rightarrow> bool" where
  "sound p \<longleftrightarrow> 0 \<le> gold p \<and> 0 \<le> attack p \<and> 0 \<le> defense p"

text \<open>What a purchase loop leaves alone: everything but the unit count it raises.\<close>

definition only_attack_raised :: "PlayerState \<Rightarrow> PlayerState \<Rightarrow> bool" where
  "only_attack_raised p r \<longleftrightarrow>
     cfg r = cfg p \<and> gold r = gold p \<and> territory r = territory p \<and> defense r = defense p
     \<and> expanded_total r = expanded_total p \<and> pending_expands r = pending_expands p
     \<and> has_enemy_intel r = has_enemy_intel p \<and> attack p \<le> attack r"

definition only_defense_raised :: "PlayerState \<Rightarrow> PlayerState \<Rightarrow> bool" where
  "only_defense_raised p r \<longleftrightarrow>
     cfg r = cfg p \<and> gold r = gold p \<and> territory r = territory p \<and> attack r = attack p
     \<and> expanded_total r = expanded_total p \<and> pending_expands r = pending_expands p
     \<and> has_enemy_intel r = has_enemy_intel p \<and> defense p \<le> defense r"

definition only_gold_lowered :: "PlayerState \<Rightarrow> PlayerState \<Rightarrow> bool" where
  "only_gold_lowered p r \<longleftrightarrow>
     cfg r = cfg p \<and> territory r = territory p \<and> attack r = attack p \<and> defense r = defense p
     \<and> expanded_total r = expanded_total p \<and> pending_expands r = pending_expands p
     \<and> has_enemy_intel r = has_enemy_intel p \<and> (0 \<le> gold p \<longrightarrow> 0 \<le> gold r)"

text \<open>
  The player as \<^verbatim>\<open>_apply_commands\<close> has it when the spending starts: after the sales,
  the expansion payment and the scouting payment, from the parsed integers \<open>v1\<close>
  (\<^verbatim>\<open>sell_attack\<close>), \<open>v2\<close> (\<^verbatim>\<open>sell_defense\<close>) and \<open>v3\<close> (\<^verbatim>\<open>expand\<close>).
\<close>

definition before_spend ::
  "GameSettings \<Rightarrow> PlayerState \<Rightarrow> Command \<Rightarrow> int \<Rightarrow> int \<Rightarrow> int \<Rightarrow> PlayerState" where
  "before_spend c player cmd v1 v2 v3 =
     (let sell_atk = max 0 v1;
          pa = (if sell_atk \<noteq> 0 then snd (refund_attack player sell_atk) else player);
          sell_def = max 0 v2;
          pb = (if sell_def \<noteq> 0 then snd (refund_defense pa sell_def) else pa);
          want_expand = max 0 v3;
          pc = snd (pay_for_expands pb want_expand);
          pd = (if truthy (cmd_get cmd ''scout'' (PyBool False)) then
                  (if gold pc \<ge> SCOUT_COST c then pc\<lparr>gold := gold pc - SCOUT_COST c\<rparr>
                   else pc)
                else pc)
      in pd)"

text \<open>The five fields \<^verbatim>\<open>_apply_commands\<close> passes to \<^verbatim>\<open>int\<close>.\<close>

definition numeric_keys :: "string list" where
  "numeric_keys = [''sell_attack'', ''sell_defense'', ''expand'', ''spend_attack'', ''spend_defense'']"

text \<open>A command none of whose numeric fields is \<^verbatim>\<open>None\<close>.\<close>

definition numeric :: "Command \<Rightarrow> bool" where
  "numeric cmd \<longleftrightarrow> list_all (\<lambda>k. cmd k \<noteq> Some PyNone) numeric_keys"

text \<open>
  The specification's sanitised command: a negative integer in a numeric field becomes
  zero. And the units really sold of a request \<open>n\<close> with \<open>held\<close> units in hand.
\<close>

definition spec_sanitize :: "Command \<Rightarrow> Command" where
  "spec_sanitize cmd = (\<lambda>k. if k \<in> set numeric_keys
     then (case cmd k of Some (PyInt n) \<Rightarrow> Some (PyInt (max 0 n)) | v \<Rightarrow> v) else cmd k)"

definition spec_sold :: "int \<Rightarrow> int \<Rightarrow> int" where
  "spec_sold n held = min (max 0 n) held"

text \<open>What \<^verbatim>\<open>_apply_commands\<close> never writes.\<close>

definition kept :: "PlayerState \<Rightarrow> PlayerState \<Rightarrow> bool" where
  "kept p r \<longleftrightarrow> cfg r = cfg p \<and> territory r = territory p
     \<and> expanded_total r = expanded_total p \<and> has_enemy_intel r = has_enemy_intel p"

text \<open>
  A command that asks to sell more attack units than are held and carries negative
  numbers in two other fields.\<close>

definition oversell_cmd :: Command where
  "oversell_cmd = [''sell_attack'' \<mapsto> PyInt 5, ''sell_defense'' \<mapsto> PyInt (- 1),
     ''expand'' \<mapsto> PyInt (- 4)]"

text \<open>
  Step 3 of \<^verbatim>\<open>_play_turn\<close> applies the command of \<^verbatim>\<open>p1\<close> and then the command of \<^verbatim>\<open>p2\<close>;
  the second definition is the other order, which the source does not run.
\<close>

definition commands_p1_first ::
  "('a, 'b) Engine \<Rightarrow> Command \<Rightarrow> Command \<Rightarrow> ('a, 'b) Engine outcome" where
  "commands_p1_first e cmd1 cmd2 =
     and_then (apply_commands_pid e 1 cmd1) (\<lambda>e3. apply_commands_pid e3 2 cmd2)"

definition commands_p2_first ::
  "('a, 'b) Engine \<Rightarrow> Command \<Rightarrow> Command \<Rightarrow> ('a, 'b) Engine outcome" where
  "commands_p2_first e cmd1 cmd2 =
     and_then (apply_commands_pid e 2 cmd2) (\<lambda>e3. apply_commands_pid e3 1 cmd1)"

text \<open>Two commands for the fresh engine: one buys cells and attack, one scouts and buys defense.\<close>

definition expand_cmd :: Command where
  "expand_cmd = [''expand'' \<mapsto> PyInt 2, ''spend_attack'' \<mapsto> PyInt 25]"

definition scout_cmd :: Command where
  "scout_cmd = [''scout'' \<mapsto> PyBool True, ''spend_defense'' \<mapsto> PyInt 10]"

text \<open>
  A strategy that every turn bids for six cells and asks to scout, against the do-nothing
  strategy, with the default settings, at the start of turn 1.
\<close>

definition scouting_strategy :: "unit Strategy" where
  "scouting_strategy = \<lparr> sstate = (), sreset = (\<lambda>s obs. Inr s),
     sstep = (\<lambda>s obs. (StepDict [''expand'' \<mapsto> PyInt 6, ''scout'' \<mapsto> PyBool True], s)),
     sformat = (\<lambda>s. True) \<rparr>"

definition scouting_engine :: "(unit, unit) Engine" where
  "scouting_engine = (new_engine scouting_strategy dummy_strategy None)\<lparr>turn := 1\<rparr>"

text \<open>
  A strategy is tame when, from whatever state and observation, a dict its \<^verbatim>\<open>step\<close>
  returns has no \<^verbatim>\<open>None\<close> in a numeric field, what its \<^verbatim>\<open>step\<close> raises is an
  \<^verbatim>\<open>Exception\<close> that can be formatted, and the object can be formatted whenever its
  \<^verbatim>\<open>step\<close> raised or returned something that is not a dict. A strategy whose \<^verbatim>\<open>step\<close>
  always raises such an exception is tame.
\<close>

definition tame :: "'s Strategy \<Rightarrow> bool" where
  "tame strat \<longleftrightarrow> (\<forall>st obs res st'. sstep strat st obs = (res, st') \<longrightarrow>
     (case res of StepDict cmd \<Rightarrow> numeric cmd
      | StepNotDict \<Rightarrow> sformat strat st'
      | StepRaised x \<Rightarrow> x = PyException True \<and> sformat strat st'))"

text \<open>
  The engine states from which a turn runs to its end: priced settings shared by the
  engine and both players, unit counts that are not negative, tame strategies.
\<close>

definition ready :: "('a, 'b) Engine \<Rightarrow> bool" where
  "ready e \<longleftrightarrow> priced (ecfg e) \<and> cfg (p1 e) = ecfg e \<and> cfg (p2 e) = ecfg e
     \<and> 0 \<le> attack (p1 e) \<and> 0 \<le> defense (p1 e) \<and> 0 \<le> attack (p2 e) \<and> 0 \<le> defense (p2 e)
     \<and> tame (s1 e) \<and> tame (s2 e)"


definition crashing_strategy :: "unit Strategy" where
  "crashing_strategy = \<lparr> sstate = (), sreset = (\<lambda>s obs. Inr s),
     sstep = (\<lambda>s obs. (StepRaised (PyException True), s)), sformat = (\<lambda>s. True) \<rparr>"

definition none_strategy :: "unit Strategy" where
  "none_strategy = \<lparr> sstate = (), sreset = (\<lambda>s obs. Inr s),
     sstep = (\<lambda>s obs. (StepDict [''expand'' \<mapsto> PyNone], s)), sformat = (\<lambda>s. True) \<rparr>"




text \<open>
  The player after the two sales as the specification words them: the units sold are the
  requests cut to the units held, each refunded at half its base price, rounded down.
\<close>

definition spec_after_sales :: "PlayerState \<Rightarrow> int \<Rightarrow> int \<Rightarrow> PlayerState" where
  "spec_after_sales p sell_atk sell_def =
     p\<lparr>attack := attack p - spec_sold sell_atk (attack p),
       defense := defense p - spec_sold sell_def (defense p),
       gold := gold p + spec_sold sell_atk (attack p) * (ATK_BASE (cfg p) div 2)
                 + spec_sold sell_def (defense p) * (DEF_BASE (cfg p) div 2)\<rparr>"

text \<open>
  Settings with a negative attack base price, and a player of these settings with two
  attack units and no gold, who is asked to sell both.
\<close>

definition negative_base :: GameSettings where
  "negative_base = settings\<lparr>ATK_BASE := - 7\<rparr>"

definition seller :: PlayerState where
  "seller = (new_player negative_base)\<lparr>attack := 2, gold := 0\<rparr>"

definition sell_two_cmd :: Command where
  "sell_two_cmd = [''sell_attack'' \<mapsto> PyInt 2]"

text \<open>A command that only asks to sell five attack units.\<close>

definition sell_five_cmd :: Command where
  "sell_five_cmd = [''sell_attack'' \<mapsto> PyInt 5]"

text \<open>
  Strategies whose \<^verbatim>\<open>reset\<close> returns and whose \<^verbatim>\<open>step\<close> leaves \<^verbatim>\<open>_safe_step\<close> with an
  exception: one raises an \<^verbatim>\<open>Exception\<close> whose \<^verbatim>\<open>__str__\<close> raises; one raises a
  \<^verbatim>\<open>BaseException\<close> that is not an \<^verbatim>\<open>Exception\<close>, such as \<^verbatim>\<open>KeyboardInterrupt\<close>; one
  returns \<^verbatim>\<open>None\<close> and cannot be formatted, its \<^verbatim>\<open>__str__\<close> raises.
\<close>

definition unformattable_strategy :: "unit Strategy" where
  "unformattable_strategy = \<lparr> sstate = (), sreset = (\<lambda>s obs. Inr s),
     sstep = (\<lambda>s obs. (StepRaised (PyException False), s)), sformat = (\<lambda>s. True) \<rparr>"

definition interrupting_strategy :: "unit Strategy" where
  "interrupting_strategy = \<lparr> sstate = (), sreset = (\<lambda>s obs. Inr s),
     sstep = (\<lambda>s obs. (StepRaised PyBaseException, s)), sformat = (\<lambda>s. True) \<rparr>"

definition unprintable_strategy :: "unit Strategy" where
  "unprintable_strategy = \<lparr> sstate = (), sreset = (\<lambda>s obs. Inr s),
     sstep = (\<lambda>s obs. (StepNotDict, s)), sformat = (\<lambda>s. False) \<rparr>"






text \<open>
  Settings that differ from the defaults in one respect each: units that cost nothing,
  units whose price falls with each unit held, and a negative starting unit count with a
  negative maintenance. And the engine of two do-nothing strategies with given settings.
\<close>

definition free_attack :: GameSettings where
  "free_attack = settings\<lparr>ATK_BASE := 0, ATK_K := 0\<rparr>"

definition free_defense :: GameSettings where
  "free_defense = settings\<lparr>DEF_BASE := 0, DEF_K := 0\<rparr>"

definition falling_attack :: GameSettings where
  "falling_attack = settings\<lparr>START_ATTACK := 1, ATK_BASE := 1, ATK_K := - 1\<rparr>"

definition falling_defense :: GameSettings where
  "falling_defense = settings\<lparr>START_DEFENSE := 1, DEF_BASE := 1, DEF_K := - 1\<rparr>"

definition owed_attack :: GameSettings where
  "owed_attack = settings\<lparr>START_ATTACK := - 1, MAINT_ATK := - 100\<rparr>"

definition owed_defense :: GameSettings where
  "owed_defense = settings\<lparr>START_DEFENSE := - 1, MAINT_DEF := - 100\<rparr>"



section \<open>Verified properties\<close>

lemma fresh_engine_eq:
  "fresh_engine = \<lparr> ecfg = settings, s1 = dummy_strategy, s2 = dummy_strategy, turn = 0,
     neutral_territory = 40, p1 = new_player settings, p2 = new_player settings,
     history = [\<lparr> snap_turn = 0, snap_neutral = 40,
       snap_p1 = \<lparr> st_territory = 30, st_gold = 50, st_attack = 0, st_defense = 0 \<rparr>,
       snap_p2 = \<lparr> st_territory = 30, st_gold = 50, st_attack = 0, st_defense = 0 \<rparr> \<rparr>] \<rparr>"
  by (simp add: fresh_engine_def new_engine_def reset_def record_snapshot_def stats_of_def
        new_player_def settings_def)

lemma new_player_settings:
  "new_player settings = \<lparr> cfg = settings, gold = 50, territory = 30, attack = 0, defense = 0,
     expanded_total = 0, pending_expands = 0, has_enemy_intel = False \<rparr>"
  by (simp add: new_player_def settings_def)

lemma allocate_neutral_eq:
  "allocate_neutral e =
     e\<lparr> p1 := (p1 e)\<lparr>territory := territory (p1 e)
              + spec_grantA (pending_expands (p1 e)) (pending_expands (p2 e)) (neutral_territory e),
            expanded_total := expanded_total (p1 e)
              + spec_grantA (pending_expands (p1 e)) (pending_expands (p2 e)) (neutral_territory e),
            pending_expands := 0\<rparr>,
        p2 := (p2 e)\<lparr>territory := territory (p2 e)
              + spec_grantB (pending_expands (p1 e)) (pending_expands (p2 e)) (neutral_territory e),
            expanded_total := expanded_total (p2 e)
              + spec_grantB (pending_expands (p1 e)) (pending_expands (p2 e)) (neutral_territory e),
            pending_expands := 0\<rparr>,
        neutral_territory := neutral_territory e
            - spec_contested (pending_expands (p1 e)) (pending_expands (p2 e)) (neutral_territory e)
            - spec_grantA (pending_expands (p1 e)) (pending_expands (p2 e)) (neutral_territory e)
            - spec_grantB (pending_expands (p1 e)) (pending_expands (p2 e)) (neutral_territory e)
            + spec_contested (pending_expands (p1 e)) (pending_expands (p2 e)) (neutral_territory e)\<rparr>"
  by (simp only: allocate_neutral_def Let_def spec_grantA_def spec_grantB_def spec_contested_def)

lemma grants_within_pool:
  assumes "0 \<le> a" and "0 \<le> b" and "0 \<le> N"
  shows "spec_grantA a b N + spec_grantB a b N \<le> N - spec_contested a b N"
proof -
  have "spec_grantB a b N \<le> N - spec_contested a b N - spec_grantA a b N"
    unfolding spec_grantB_def by (rule min.cobounded2)
  then show ?thesis by simp
qed

text \<open>
  Claim C1. For non-negative pending bids and a non-negative neutral pool, the allocation
  step conserves the total number of cells (both territories plus the neutral pool), and
  the neutral pool afterwards holds at least the contested cells \<open>min(a, b, N)\<close>.
\<close>

theorem allocate_neutral_conserves:
  assumes "0 \<le> pending_expands (p1 e)" and "0 \<le> pending_expands (p2 e)"
    and "0 \<le> neutral_territory e"
  shows "territory (p1 (allocate_neutral e)) + territory (p2 (allocate_neutral e))
           + neutral_territory (allocate_neutral e)
         = territory (p1 e) + territory (p2 e) + neutral_territory e
       \<and> spec_contested (pending_expands (p1 e)) (pending_expands (p2 e)) (neutral_territory e)
           \<le> neutral_territory (allocate_neutral e)"
  using grants_within_pool [OF assms] by (simp add: allocate_neutral_eq)

lemma bids_engine_fields:
  "pending_expands (p1 (bids_engine a b N)) = a"
  "pending_expands (p2 (bids_engine a b N)) = b"
  "neutral_territory (bids_engine a b N) = N"
  "territory (p1 (bids_engine a b N)) = 30"
  "territory (p2 (bids_engine a b N)) = 30"
  "expanded_total (p1 (bids_engine a b N)) = 0"
  "expanded_total (p2 (bids_engine a b N)) = 0"
  by (simp_all add: bids_engine_def fresh_engine_eq new_player_settings)

theorem allocate_neutral_conserves_witness:
  "0 \<le> pending_expands (p1 (bids_engine 3 3 5)) \<and> 0 \<le> pending_expands (p2 (bids_engine 3 3 5))
   \<and> 0 \<le> neutral_territory (bids_engine 3 3 5)
   \<and> territory (p1 (allocate_neutral (bids_engine 3 3 5)))
       + territory (p2 (allocate_neutral (bids_engine 3 3 5)))
       + neutral_territory (allocate_neutral (bids_engine 3 3 5)) = 30 + 30 + 5
   \<and> spec_contested 3 3 5 = 3
   \<and> 3 \<le> neutral_territory (allocate_neutral (bids_engine 3 3 5))"
  using allocate_neutral_conserves [of "bids_engine 3 3 5"]
  by (simp add: bids_engine_fields spec_contested_def)

lemma first_come_A:
  assumes "a - spec_contested a b N > N - spec_contested a b N"
    and "b - spec_contested a b N > N - spec_contested a b N"
  shows "spec_grantA a b N = N - spec_contested a b N \<and> spec_grantB a b N = 0"
proof -
  have c: "spec_contested a b N \<le> N"
    by (simp add: spec_contested_def)
  have A: "spec_grantA a b N = N - spec_contested a b N"
    unfolding spec_grantA_def using assms(1) by (simp add: min_def)
  have "spec_grantB a b N = min (b - spec_contested a b N) 0"
    unfolding spec_grantB_def A by simp
  also have "\<dots> = 0"
    using assms(2) c by (simp add: min_def)
  finally show ?thesis using A by simp
qed

text \<open>
  Claim C7. For all bids and pools, agent A is granted \<open>min(a - contested, N - contested)\<close>
  cells and agent B \<open>min(b - contested, N - contested - grantA)\<close> cells; each grant is added
  to the receiver's territory and to its lifetime expansion counter; both pending bids are
  zero afterwards; and when both unique demands exceed the remaining pool, A receives all
  of it and B nothing.
\<close>

theorem allocate_neutral_grants:
  "territory (p1 (allocate_neutral e)) = territory (p1 e)
       + spec_grantA (pending_expands (p1 e)) (pending_expands (p2 e)) (neutral_territory e)
   \<and> expanded_total (p1 (allocate_neutral e)) = expanded_total (p1 e)
       + spec_grantA (pending_expands (p1 e)) (pending_expands (p2 e)) (neutral_territory e)
   \<and> territory (p2 (allocate_neutral e)) = territory (p2 e)
       + spec_grantB (pending_expands (p1 e)) (pending_expands (p2 e)) (neutral_territory e)
   \<and> expanded_total (p2 (allocate_neutral e)) = expanded_total (p2 e)
       + spec_grantB (pending_expands (p1 e)) (pending_expands (p2 e)) (neutral_territory e)
   \<and> pending_expands (p1 (allocate_neutral e)) = 0
   \<and> pending_expands (p2 (allocate_neutral e)) = 0
   \<and> (pending_expands (p1 e)
          - spec_contested (pending_expands (p1 e)) (pending_expands (p2 e)) (neutral_territory e)
        > neutral_territory e
          - spec_contested (pending_expands (p1 e)) (pending_expands (p2 e)) (neutral_territory e)
      \<and> pending_expands (p2 e)
          - spec_contested (pending_expands (p1 e)) (pending_expands (p2 e)) (neutral_territory e)
        > neutral_territory e
          - spec_contested (pending_expands (p1 e)) (pending_expands (p2 e)) (neutral_territory e)
      \<longrightarrow> spec_grantA (pending_expands (p1 e)) (pending_expands (p2 e)) (neutral_territory e)
          = neutral_territory e
            - spec_contested (pending_expands (p1 e)) (pending_expands (p2 e)) (neutral_territory e)
        \<and> spec_grantB (pending_expands (p1 e)) (pending_expands (p2 e)) (neutral_territory e) = 0)"
  using first_come_A [of "neutral_territory e" "pending_expands (p1 e)" "pending_expands (p2 e)"]
  by (simp add: allocate_neutral_eq)

lemma spec_values:
  "spec_contested 5 5 3 = 3" "spec_grantA 5 5 3 = 0" "spec_grantB 5 5 3 = 0"
  "spec_contested 3 0 4 = 0" "spec_grantA 3 0 4 = 3" "spec_grantB 3 0 4 = 0"
  by (simp_all add: spec_contested_def spec_grantA_def spec_grantB_def)

theorem allocate_neutral_grants_witness:
  "territory (p1 (allocate_neutral (bids_engine 5 5 3))) = 30
   \<and> territory (p2 (allocate_neutral (bids_engine 5 5 3))) = 30
   \<and> pending_expands (p1 (allocate_neutral (bids_engine 5 5 3))) = 0
   \<and> pending_expands (p2 (allocate_neutral (bids_engine 5 5 3))) = 0
   \<and> 5 - spec_contested 5 5 3 > 3 - spec_contested 5 5 3
   \<and> spec_grantA 5 5 3 = 3 - spec_contested 5 5 3 \<and> spec_grantB 5 5 3 = 0"
  using allocate_neutral_grants [of "bids_engine 5 5 3"]
  by (simp add: bids_engine_fields spec_values)

lemma resolve_combat_eq:
  "resolve_combat e =
     e\<lparr> p1 := (p1 e)\<lparr>territory := territory (p1 e)
              - spec_loss (spec_damage (attack (p2 e)) (defense (p1 e))) (territory (p1 e))\<rparr>,
        p2 := (p2 e)\<lparr>territory := territory (p2 e)
              - spec_loss (spec_damage (attack (p1 e)) (defense (p2 e))) (territory (p2 e))\<rparr>,
        neutral_territory := neutral_territory e
            + (spec_loss (spec_damage (attack (p2 e)) (defense (p1 e))) (territory (p1 e))
               + spec_loss (spec_damage (attack (p1 e)) (defense (p2 e))) (territory (p2 e)))\<rparr>"
  by (simp only: resolve_combat_def Let_def spec_loss_def spec_damage_def)

lemma spec_loss_bounds:
  "spec_loss d t \<le> t" "0 \<le> t \<Longrightarrow> 0 \<le> spec_loss (spec_damage x y) t"
  by (simp_all add: spec_loss_def spec_damage_def)

text \<open>
  Claim C2. Combat computes both damages from the values before combat, each side loses
  \<open>min(damage taken, territory)\<close> cells, territory is not negative afterwards, every lost
  cell goes to the neutral pool and none to the opponent (no territory grows), attack and
  defense are unchanged, and the total number of cells is conserved.
\<close>

theorem resolve_combat_attrition:
  "territory (p1 (resolve_combat e)) = territory (p1 e)
       - spec_loss (spec_damage (attack (p2 e)) (defense (p1 e))) (territory (p1 e))
   \<and> territory (p2 (resolve_combat e)) = territory (p2 e)
       - spec_loss (spec_damage (attack (p1 e)) (defense (p2 e))) (territory (p2 e))
   \<and> neutral_territory (resolve_combat e) = neutral_territory e
       + spec_loss (spec_damage (attack (p2 e)) (defense (p1 e))) (territory (p1 e))
       + spec_loss (spec_damage (attack (p1 e)) (defense (p2 e))) (territory (p2 e))
   \<and> 0 \<le> territory (p1 (resolve_combat e)) \<and> 0 \<le> territory (p2 (resolve_combat e))
   \<and> (0 \<le> territory (p1 e) \<longrightarrow> territory (p1 (resolve_combat e)) \<le> territory (p1 e))
   \<and> (0 \<le> territory (p2 e) \<longrightarrow> territory (p2 (resolve_combat e)) \<le> territory (p2 e))
   \<and> attack (p1 (resolve_combat e)) = attack (p1 e)
   \<and> defense (p1 (resolve_combat e)) = defense (p1 e)
   \<and> attack (p2 (resolve_combat e)) = attack (p2 e)
   \<and> defense (p2 (resolve_combat e)) = defense (p2 e)
   \<and> territory (p1 (resolve_combat e)) + territory (p2 (resolve_combat e))
       + neutral_territory (resolve_combat e)
     = territory (p1 e) + territory (p2 e) + neutral_territory e"
  using spec_loss_bounds(1) [of "spec_damage (attack (p2 e)) (defense (p1 e))" "territory (p1 e)"]
    spec_loss_bounds(1) [of "spec_damage (attack (p1 e)) (defense (p2 e))" "territory (p2 e)"]
    spec_loss_bounds(2) [of "territory (p1 e)" "attack (p2 e)" "defense (p1 e)"]
    spec_loss_bounds(2) [of "territory (p2 e)" "attack (p1 e)" "defense (p2 e)"]
  by (simp add: resolve_combat_eq)

lemma combat_engine_fields:
  "attack (p1 combat_engine) = 12" "defense (p1 combat_engine) = 5"
  "attack (p2 combat_engine) = 5" "defense (p2 combat_engine) = 10"
  "territory (p1 combat_engine) = 30" "territory (p2 combat_engine) = 30"
  "neutral_territory combat_engine = 0"
  by (simp_all add: combat_engine_def fresh_engine_eq new_player_settings)

theorem resolve_combat_attrition_witness:
  "0 \<le> territory (p1 combat_engine) \<and> 0 \<le> territory (p2 combat_engine)
   \<and> territory (p1 (resolve_combat combat_engine)) = 30
   \<and> territory (p2 (resolve_combat combat_engine)) = 28
   \<and> neutral_territory (resolve_combat combat_engine) = 2"
  using resolve_combat_attrition [of combat_engine]
  by (simp add: combat_engine_fields spec_loss_def spec_damage_def)

text \<open>
  Claim C8. Winner determination: both territories zero is a draw; exactly one territory
  zero makes the other agent the winner; with both territories non-zero, at the forced
  cutoff the agent with strictly more gold wins and equal gold is a draw, and before the
  cutoff no winner is declared.
\<close>

theorem check_winner_cases:
  "(territory (p1 e) = 0 \<and> territory (p2 e) = 0 \<longrightarrow> check_winner e is_end = Some draw)
   \<and> (territory (p1 e) = 0 \<and> territory (p2 e) \<noteq> 0 \<longrightarrow> check_winner e is_end = Some player2)
   \<and> (territory (p1 e) \<noteq> 0 \<and> territory (p2 e) = 0 \<longrightarrow> check_winner e is_end = Some player1)
   \<and> (territory (p1 e) \<noteq> 0 \<and> territory (p2 e) \<noteq> 0 \<longrightarrow>
        check_winner e True =
          (if gold (p1 e) > gold (p2 e) then Some player1
           else if gold (p2 e) > gold (p1 e) then Some player2 else Some draw)
        \<and> check_winner e False = None)"
  by (simp add: check_winner_def Let_def)

lemma timeout_engine_fields:
  "territory (p1 timeout_engine) = 30" "territory (p2 timeout_engine) = 30"
  "gold (p1 timeout_engine) = 100" "gold (p2 timeout_engine) = 50"
  by (simp_all add: timeout_engine_def fresh_engine_eq new_player_settings)

theorem check_winner_cases_witness:
  "territory (p1 timeout_engine) \<noteq> 0 \<and> territory (p2 timeout_engine) \<noteq> 0
   \<and> gold (p1 timeout_engine) = 100 \<and> gold (p2 timeout_engine) = 50
   \<and> check_winner timeout_engine True = Some player1
   \<and> check_winner timeout_engine False = None"
  using check_winner_cases [of timeout_engine]
  by (simp add: timeout_engine_fields)

lemma upkeep_loop_stop:
  "\<not> (d > 0 \<and> (attack p \<noteq> 0 \<or> defense p \<noteq> 0)) \<Longrightarrow> upkeep_loop d p = Some p"
  by (subst upkeep_loop.simps) auto

lemma upkeep_loop_attack:
  "d > 0 \<Longrightarrow> attack p \<noteq> 0 \<Longrightarrow>
   upkeep_loop d p = upkeep_loop (d - MAINT_ATK (cfg p))
     (p\<lparr>attack := attack p - 1, gold := gold p + MAINT_ATK (cfg p)\<rparr>)"
  by (subst upkeep_loop.simps) simp

lemma upkeep_loop_defense:
  "d > 0 \<Longrightarrow> attack p = 0 \<Longrightarrow> defense p \<noteq> 0 \<Longrightarrow>
   upkeep_loop d p = upkeep_loop (d - MAINT_DEF (cfg p))
     (p\<lparr>defense := defense p - 1, gold := gold p + MAINT_DEF (cfg p)\<rparr>)"
  by (subst upkeep_loop.simps) simp

lemma liquidated_refl:
  "0 \<le> attack p \<Longrightarrow> 0 \<le> defense p \<Longrightarrow> \<not> (d > 0 \<and> (attack p \<noteq> 0 \<or> defense p \<noteq> 0))
   \<Longrightarrow> liquidated d p p"
  by (auto simp: liquidated_def)

lemma liquidated_attack_step:
  assumes L: "liquidated (d - MAINT_ATK (cfg p))
             (p\<lparr>attack := attack p - 1, gold := gold p + MAINT_ATK (cfg p)\<rparr>) r"
    and pos: "0 < attack p" and d: "0 < d"
  shows "liquidated d p r"
proof -
  have a: "0 < d - (attack p - j) * MAINT_ATK (cfg p)" if j: "j \<in> {attack r<..attack p}" for j
  proof (cases "j = attack p")
    case True
    then show ?thesis using d by simp
  next
    case False
    then have "j \<in> {attack r<..attack p - 1}" using j by simp
    with L have "0 < d - MAINT_ATK (cfg p) - (attack p - 1 - j) * MAINT_ATK (cfg p)"
      unfolding liquidated_def by simp
    then show ?thesis by (simp add: algebra_simps)
  qed
  have b: "0 < d - attack p * MAINT_ATK (cfg p) - (defense p - k) * MAINT_DEF (cfg p)"
    if k: "k \<in> {defense r<..defense p}" for k
  proof -
    from L k have "0 < d - MAINT_ATK (cfg p) - (attack p - 1) * MAINT_ATK (cfg p)
        - (defense p - k) * MAINT_DEF (cfg p)"
      unfolding liquidated_def by simp
    then show ?thesis by (simp add: algebra_simps)
  qed
  have "cfg r = cfg p \<and> territory r = territory p \<and> expanded_total r = expanded_total p
     \<and> pending_expands r = pending_expands p \<and> has_enemy_intel r = has_enemy_intel p
     \<and> 0 \<le> attack r \<and> attack r \<le> attack p \<and> 0 \<le> defense r \<and> defense r \<le> defense p
     \<and> (defense r < defense p \<longrightarrow> attack r = 0)
     \<and> gold r = gold p + (attack p - attack r) * MAINT_ATK (cfg p)
                      + (defense p - defense r) * MAINT_DEF (cfg p)
     \<and> (d + gold p \<le> gold r \<or> (attack r = 0 \<and> defense r = 0))"
    using L pos unfolding liquidated_def by (auto simp: algebra_simps)
  then show ?thesis
    unfolding liquidated_def using a b by blast
qed

lemma liquidated_defense_step:
  assumes L: "liquidated (d - MAINT_DEF (cfg p))
             (p\<lparr>defense := defense p - 1, gold := gold p + MAINT_DEF (cfg p)\<rparr>) r"
    and a0: "attack p = 0" and pos: "0 < defense p" and d: "0 < d"
  shows "liquidated d p r"
proof -
  have ar: "0 \<le> attack r" "attack r \<le> 0"
    using L a0 unfolding liquidated_def by simp_all
  have a: "0 < d - (attack p - j) * MAINT_ATK (cfg p)" if j: "j \<in> {attack r<..attack p}" for j
    using j ar a0 by simp
  have b: "0 < d - attack p * MAINT_ATK (cfg p) - (defense p - k) * MAINT_DEF (cfg p)"
    if k: "k \<in> {defense r<..defense p}" for k
  proof (cases "k = defense p")
    case True
    then show ?thesis using d a0 by simp
  next
    case False
    then have "k \<in> {defense r<..defense p - 1}" using k by simp
    with L a0 have "0 < d - MAINT_DEF (cfg p) - (defense p - 1 - k) * MAINT_DEF (cfg p)"
      unfolding liquidated_def by simp
    then show ?thesis using a0 by (simp add: algebra_simps)
  qed
  have "cfg r = cfg p \<and> territory r = territory p \<and> expanded_total r = expanded_total p
     \<and> pending_expands r = pending_expands p \<and> has_enemy_intel r = has_enemy_intel p
     \<and> 0 \<le> attack r \<and> attack r \<le> attack p \<and> 0 \<le> defense r \<and> defense r \<le> defense p
     \<and> (defense r < defense p \<longrightarrow> attack r = 0)
     \<and> gold r = gold p + (attack p - attack r) * MAINT_ATK (cfg p)
                      + (defense p - defense r) * MAINT_DEF (cfg p)
     \<and> (d + gold p \<le> gold r \<or> (attack r = 0 \<and> defense r = 0))"
    using L a0 pos unfolding liquidated_def by (auto simp: algebra_simps)
  then show ?thesis
    unfolding liquidated_def using a b by blast
qed

lemma upkeep_loop_terminates:
  "0 \<le> attack p \<Longrightarrow> 0 \<le> defense p \<Longrightarrow> \<exists>r. upkeep_loop d p = Some r \<and> liquidated d p r"
proof (induction "nat (attack p + defense p)" arbitrary: d p rule: less_induct)
  case less
  show ?case
  proof (cases "d > 0 \<and> (attack p \<noteq> 0 \<or> defense p \<noteq> 0)")
    case False
    have "upkeep_loop d p = Some p"
      using False by (rule upkeep_loop_stop)
    moreover have "liquidated d p p"
      using less.prems False by (rule liquidated_refl)
    ultimately show ?thesis by blast
  next
    case True
    then have dpos: "d > 0" by simp
    show ?thesis
    proof (cases "attack p \<noteq> 0")
      case True
      define q where "q = p\<lparr>attack := attack p - 1, gold := gold p + MAINT_ATK (cfg p)\<rparr>"
      have pos: "0 < attack p" using True less.prems(1) by simp
      have m: "nat (attack q + defense q) < nat (attack p + defense p)"
        using pos less.prems(2) by (simp add: q_def)
      have a: "0 \<le> attack q" using pos by (simp add: q_def)
      have b: "0 \<le> defense q" using less.prems(2) by (simp add: q_def)
      from less.hyps [OF m a b, of "d - MAINT_ATK (cfg p)"]
      obtain r where r1: "upkeep_loop (d - MAINT_ATK (cfg p)) q = Some r"
        and r2: "liquidated (d - MAINT_ATK (cfg p)) q r"
        by blast
      have "liquidated d p r"
        using r2 pos dpos unfolding q_def by (rule liquidated_attack_step)
      moreover have "upkeep_loop d p = upkeep_loop (d - MAINT_ATK (cfg p)) q"
        unfolding q_def using dpos True by (rule upkeep_loop_attack)
      ultimately show ?thesis using r1 by simp
    next
      case False
      then have a0: "attack p = 0" by simp
      with True have dn: "defense p \<noteq> 0" by simp
      define q where "q = p\<lparr>defense := defense p - 1, gold := gold p + MAINT_DEF (cfg p)\<rparr>"
      have pos: "0 < defense p" using dn less.prems(2) by simp
      have m: "nat (attack q + defense q) < nat (attack p + defense p)"
        using pos less.prems(1) by (simp add: q_def)
      have a: "0 \<le> attack q" using less.prems(1) by (simp add: q_def)
      have b: "0 \<le> defense q" using pos by (simp add: q_def)
      from less.hyps [OF m a b, of "d - MAINT_DEF (cfg p)"]
      obtain r where r1: "upkeep_loop (d - MAINT_DEF (cfg p)) q = Some r"
        and r2: "liquidated (d - MAINT_DEF (cfg p)) q r"
        by blast
      have "liquidated d p r"
        using r2 a0 pos dpos unfolding q_def by (rule liquidated_defense_step)
      moreover have "upkeep_loop d p = upkeep_loop (d - MAINT_DEF (cfg p)) q"
        unfolding q_def using dpos a0 dn by (rule upkeep_loop_defense)
      ultimately show ?thesis using r1 by simp
    qed
  qed
qed


lemma upkeep_cost_after:
  assumes "liquidated d q r"
  shows "gold r = gold q + upkeep_cost q - upkeep_cost r"
  using assms by (simp add: liquidated_def upkeep_cost_def algebra_simps)

lemma apply_upkeep_returns:
  assumes "0 \<le> attack p" and "0 \<le> defense p"
  shows "\<exists>r. apply_upkeep p = Some r \<and> sound r \<and> kept p r
     \<and> pending_expands r = pending_expands p
     \<and> attack r \<le> attack p \<and> defense r \<le> defense p
     \<and> (defense r < defense p \<longrightarrow> attack r = 0)
     \<and> gold r = max 0 (gold p - upkeep_cost r)
     \<and> (upkeep_cost r \<le> gold p \<or> (attack r = 0 \<and> defense r = 0))
     \<and> (\<forall>j\<in>{attack r<..attack p}.
           gold p < j * MAINT_ATK (cfg p) + defense p * MAINT_DEF (cfg p))
     \<and> (\<forall>k\<in>{defense r<..defense p}. gold p < k * MAINT_DEF (cfg p))"
proof (cases "0 \<le> gold p - upkeep_cost p")
  case True
  then have "apply_upkeep p = Some (p\<lparr>gold := gold p - upkeep_cost p\<rparr>)"
    by (simp add: apply_upkeep_def Let_def)
  moreover have "upkeep_cost (p\<lparr>gold := gold p - upkeep_cost p\<rparr>) = upkeep_cost p"
    by (simp add: upkeep_cost_def)
  ultimately show ?thesis using True assms by (auto simp: sound_def kept_def)
next
  case False
  define q where "q = p\<lparr>gold := gold p - upkeep_cost p\<rparr>"
  have q: "attack q = attack p" "defense q = defense p" "gold q = gold p - upkeep_cost p"
    "upkeep_cost q = upkeep_cost p" "territory q = territory p"
    "expanded_total q = expanded_total p" "cfg q = cfg p"
    "pending_expands q = pending_expands p" "has_enemy_intel q = has_enemy_intel p"
    by (simp_all add: q_def upkeep_cost_def)
  from upkeep_loop_terminates [of q "- gold q"] assms q
  obtain r where r1: "upkeep_loop (- gold q) q = Some r" and r2: "liquidated (- gold q) q r"
    by auto
  define r' where "r' = (if gold r < 0 then r\<lparr>gold := 0\<rparr> else r)"
  have ap: "apply_upkeep p = Some r'"
    using False r1 by (simp add: apply_upkeep_def Let_def q_def [symmetric] q r'_def)
  have g: "gold r = gold p - upkeep_cost r"
    using upkeep_cost_after [OF r2] q by simp
  have u: "upkeep_cost r' = upkeep_cost r" "attack r' = attack r" "defense r' = defense r"
    "territory r' = territory r" "expanded_total r' = expanded_total r" "cfg r' = cfg r"
    "pending_expands r' = pending_expands r" "has_enemy_intel r' = has_enemy_intel r"
    by (simp_all add: r'_def upkeep_cost_def)
  have g': "gold r' = max 0 (gold r)"
    by (simp add: r'_def)
  have b: "0 \<le> attack r" "attack r \<le> attack p" "0 \<le> defense r" "defense r \<le> defense p"
    "defense r < defense p \<longrightarrow> attack r = 0" "territory r = territory p"
    "expanded_total r = expanded_total p" "cfg r = cfg p"
    "pending_expands r = pending_expands p" "has_enemy_intel r = has_enemy_intel p"
    using r2 q by (simp_all add: liquidated_def)
  have x: "upkeep_cost r \<le> gold p \<or> (attack r = 0 \<and> defense r = 0)"
    using r2 g unfolding liquidated_def by auto
  have ja: "gold p < j * MAINT_ATK (cfg p) + defense p * MAINT_DEF (cfg p)"
    if "j \<in> {attack r<..attack p}" for j
  proof -
    from r2 that q have "0 < - gold q - (attack p - j) * MAINT_ATK (cfg p)"
      unfolding liquidated_def by simp
    then show ?thesis
      by (simp add: q(3) upkeep_cost_def algebra_simps)
  qed
  have kd: "gold p < k * MAINT_DEF (cfg p)" if "k \<in> {defense r<..defense p}" for k
  proof -
    from r2 that q have "0 < - gold q - attack p * MAINT_ATK (cfg p)
        - (defense p - k) * MAINT_DEF (cfg p)"
      unfolding liquidated_def by simp
    then show ?thesis
      by (simp add: q(3) upkeep_cost_def algebra_simps)
  qed
  have "sound r' \<and> kept p r' \<and> pending_expands r' = pending_expands p
     \<and> attack r' \<le> attack p \<and> defense r' \<le> defense p
     \<and> (defense r' < defense p \<longrightarrow> attack r' = 0)
     \<and> gold r' = max 0 (gold p - upkeep_cost r')
     \<and> (upkeep_cost r' \<le> gold p \<or> (attack r' = 0 \<and> defense r' = 0))"
    using g g' u b x by (auto simp: sound_def kept_def)
  moreover have "\<forall>j\<in>{attack r'<..attack p}.
      gold p < j * MAINT_ATK (cfg p) + defense p * MAINT_DEF (cfg p)"
    using ja u(2) by simp
  moreover have "\<forall>k\<in>{defense r'<..defense p}. gold p < k * MAINT_DEF (cfg p)"
    using kd u(3) by simp
  ultimately show ?thesis
    using ap by blast
qed

text \<open>
  Claim C3. For a player with non-negative attack and defense counts (and any gold, so in
  particular non-negative gold), \<^verbatim>\<open>apply_upkeep\<close> returns, gold is not negative
  afterwards, unit counts only shrink and stay non-negative, nothing else of the player
  changes, and a defense unit is liquidated only when no attack unit remains. The deficit is covered by liquidating
  units: the loop stops only when the upkeep of the remaining units is within the gold
  held at entry or both unit types are exhausted, and each liquidated unit was needed (with
  \<open>j\<close> attack units and every defense unit, or with \<open>k\<close> defense units and no attack unit,
  still to pay, the gold fell short). Liquidating a unit gives back exactly its upkeep, so
  the gold afterwards is \<open>max 0 (gold - upkeep of the remaining units)\<close>: gold is set to
  zero only when both unit types are exhausted and a deficit remains, and nothing is
  raised.
\<close>

theorem apply_upkeep_liquidation:
  assumes "0 \<le> attack p" and "0 \<le> defense p"
  shows "\<exists>r. apply_upkeep p = Some r
     \<and> 0 \<le> gold r
     \<and> 0 \<le> attack r \<and> attack r \<le> attack p \<and> 0 \<le> defense r \<and> defense r \<le> defense p
     \<and> (defense r < defense p \<longrightarrow> attack r = 0)
     \<and> gold r = max 0 (gold p - upkeep_cost r)
     \<and> (attack r = 0 \<and> defense r = 0 \<and> gold p < 0 \<longrightarrow> gold r = 0)
     \<and> territory r = territory p \<and> expanded_total r = expanded_total p
     \<and> (gold p < upkeep_cost r \<longrightarrow> attack r = 0 \<and> defense r = 0)
     \<and> (\<forall>j\<in>{attack r<..attack p}.
           gold p < j * MAINT_ATK (cfg p) + defense p * MAINT_DEF (cfg p))
     \<and> (\<forall>k\<in>{defense r<..defense p}. gold p < k * MAINT_DEF (cfg p))
     \<and> cfg r = cfg p \<and> pending_expands r = pending_expands p
     \<and> has_enemy_intel r = has_enemy_intel p"
proof -
  from apply_upkeep_returns [OF assms]
  obtain r where r: "apply_upkeep p = Some r" "sound r" "kept p r"
    "attack r \<le> attack p" "defense r \<le> defense p" "defense r < defense p \<longrightarrow> attack r = 0"
    "gold r = max 0 (gold p - upkeep_cost r)"
    "upkeep_cost r \<le> gold p \<or> (attack r = 0 \<and> defense r = 0)"
    "\<forall>j\<in>{attack r<..attack p}.
           gold p < j * MAINT_ATK (cfg p) + defense p * MAINT_DEF (cfg p)"
    "\<forall>k\<in>{defense r<..defense p}. gold p < k * MAINT_DEF (cfg p)"
    "pending_expands r = pending_expands p"
    by blast
  have z: "attack r = 0 \<and> defense r = 0 \<longrightarrow> upkeep_cost r = 0"
    by (simp add: upkeep_cost_def)
  have "0 \<le> gold r \<and> 0 \<le> attack r \<and> attack r \<le> attack p \<and> 0 \<le> defense r
     \<and> defense r \<le> defense p \<and> (defense r < defense p \<longrightarrow> attack r = 0)
     \<and> gold r = max 0 (gold p - upkeep_cost r)
     \<and> (attack r = 0 \<and> defense r = 0 \<and> gold p < 0 \<longrightarrow> gold r = 0)
     \<and> territory r = territory p \<and> expanded_total r = expanded_total p
     \<and> (gold p < upkeep_cost r \<longrightarrow> attack r = 0 \<and> defense r = 0)"
    using r(2-8) z by (auto simp: sound_def kept_def)
  moreover have "cfg r = cfg p \<and> pending_expands r = pending_expands p
     \<and> has_enemy_intel r = has_enemy_intel p"
    using r(3,11) by (simp add: kept_def)
  ultimately show ?thesis
    using r(1,9,10) by blast
qed

lemma upkeep_player_eq:
  "upkeep_player = \<lparr> cfg = settings, gold = 2, territory = 30, attack = 3, defense = 2,
     expanded_total = 0, pending_expands = 0, has_enemy_intel = False \<rparr>"
  by (simp add: upkeep_player_def new_player_def settings_def)

lemma apply_upkeep_test:
  "apply_upkeep upkeep_player = Some (upkeep_player\<lparr>attack := 0, gold := 0\<rparr>)"
  by (simp add: apply_upkeep_def upkeep_cost_def Let_def upkeep_player_eq settings_def
        upkeep_loop.simps)

theorem apply_upkeep_liquidation_witness:
  "0 \<le> attack upkeep_player \<and> 0 \<le> defense upkeep_player
   \<and> apply_upkeep upkeep_player = Some (upkeep_player\<lparr>attack := 0, gold := 0\<rparr>)
   \<and> (\<exists>r. apply_upkeep upkeep_player = Some r \<and> 0 \<le> gold r \<and> attack r = 0 \<and> defense r = 2)"
  using apply_upkeep_liquidation [of upkeep_player] apply_upkeep_test
  by (simp add: upkeep_player_eq)

lemma buy_attack_loop_terminates:
  "0 \<le> ATK_K (cfg p) \<Longrightarrow> 0 < attack_price p \<Longrightarrow>
   \<exists>s r. buy_attack_loop gl sp p = Some (s, r) \<and> only_attack_raised p r
     \<and> sp \<le> s \<and> (s \<le> gl \<or> s = sp)"
proof (induction "nat (gl - sp)" arbitrary: sp p rule: less_induct)
  case less
  show ?case
  proof (cases "gl - sp \<ge> attack_price p")
    case False
    then have "buy_attack_loop gl sp p = Some (sp, p)"
      by (subst buy_attack_loop.simps) simp
    then show ?thesis by (simp add: only_attack_raised_def)
  next
    case True
    define q where "q = p\<lparr>attack := attack p + 1\<rparr>"
    have qp: "attack_price q = attack_price p + ATK_K (cfg p)"
      by (simp add: q_def attack_price_def algebra_simps)
    have m: "nat (gl - (sp + attack_price p)) < nat (gl - sp)"
      using True less.prems(2) by simp
    have k: "0 \<le> ATK_K (cfg q)" using less.prems(1) by (simp add: q_def)
    have pr: "0 < attack_price q" using qp less.prems by simp
    from less.hyps [OF m k pr]
    obtain s r where s: "buy_attack_loop gl (sp + attack_price p) q = Some (s, r)"
      and f: "only_attack_raised q r" and b: "sp + attack_price p \<le> s"
      and l: "s \<le> gl \<or> s = sp + attack_price p"
      by blast
    have "buy_attack_loop gl sp p = buy_attack_loop gl (sp + attack_price p) q"
      unfolding q_def using True by (subst buy_attack_loop.simps) simp
    moreover have "only_attack_raised p r"
      using f by (simp add: only_attack_raised_def q_def)
    moreover have "sp \<le> s" using b less.prems(2) by simp
    moreover have "s \<le> gl" using l True by auto
    ultimately show ?thesis using s by simp
  qed
qed

lemma buy_defense_loop_terminates:
  "0 \<le> DEF_K (cfg p) \<Longrightarrow> 0 < defense_price p \<Longrightarrow>
   \<exists>s r. buy_defense_loop gl sp p = Some (s, r) \<and> only_defense_raised p r
     \<and> sp \<le> s \<and> (s \<le> gl \<or> s = sp)"
proof (induction "nat (gl - sp)" arbitrary: sp p rule: less_induct)
  case less
  show ?case
  proof (cases "gl - sp \<ge> defense_price p")
    case False
    then have "buy_defense_loop gl sp p = Some (sp, p)"
      by (subst buy_defense_loop.simps) simp
    then show ?thesis by (simp add: only_defense_raised_def)
  next
    case True
    define q where "q = p\<lparr>defense := defense p + 1\<rparr>"
    have qp: "defense_price q = defense_price p + DEF_K (cfg p)"
      by (simp add: q_def defense_price_def algebra_simps)
    have m: "nat (gl - (sp + defense_price p)) < nat (gl - sp)"
      using True less.prems(2) by simp
    have k: "0 \<le> DEF_K (cfg q)" using less.prems(1) by (simp add: q_def)
    have pr: "0 < defense_price q" using qp less.prems by simp
    from less.hyps [OF m k pr]
    obtain s r where s: "buy_defense_loop gl (sp + defense_price p) q = Some (s, r)"
      and f: "only_defense_raised q r" and b: "sp + defense_price p \<le> s"
      and l: "s \<le> gl \<or> s = sp + defense_price p"
      by blast
    have "buy_defense_loop gl sp p = buy_defense_loop gl (sp + defense_price p) q"
      unfolding q_def using True by (subst buy_defense_loop.simps) simp
    moreover have "only_defense_raised p r"
      using f by (simp add: only_defense_raised_def q_def)
    moreover have "sp \<le> s" using b less.prems(2) by simp
    moreover have "s \<le> gl" using l True by auto
    ultimately show ?thesis using s by simp
  qed
qed

lemma attack_price_pos: "priced (cfg p) \<Longrightarrow> 0 \<le> attack p \<Longrightarrow> 0 < attack_price p"
  by (simp add: priced_def attack_price_def add_pos_nonneg)

lemma defense_price_pos: "priced (cfg p) \<Longrightarrow> 0 \<le> defense p \<Longrightarrow> 0 < defense_price p"
  by (simp add: priced_def defense_price_def add_pos_nonneg)

lemma buy_attack_sound:
  assumes "priced (cfg p)" and "sound p" and "gl \<le> gold p"
  shows "\<exists>s r. buy_attack p gl = Some (s, r) \<and> sound r \<and> cfg r = cfg p
     \<and> territory r = territory p \<and> expanded_total r = expanded_total p
     \<and> pending_expands r = pending_expands p \<and> has_enemy_intel r = has_enemy_intel p"
proof -
  have "0 \<le> ATK_K (cfg p)" "0 < attack_price p"
    using assms(1,2) attack_price_pos [of p] by (simp_all add: priced_def sound_def)
  from buy_attack_loop_terminates [OF this, of gl 0]
  obtain s r where s: "buy_attack_loop gl 0 p = Some (s, r)" and f: "only_attack_raised p r"
    and b: "0 \<le> s" "s \<le> gl \<or> s = 0"
    by blast
  have "buy_attack p gl = Some (s, r\<lparr>gold := gold r - s\<rparr>)"
    using s by (simp add: buy_attack_def)
  moreover have "sound (r\<lparr>gold := gold r - s\<rparr>)"
    using f b assms(2,3) by (auto simp: sound_def only_attack_raised_def)
  ultimately show ?thesis
    using f by (simp add: only_attack_raised_def)
qed

lemma buy_defense_sound:
  assumes "priced (cfg p)" and "sound p" and "gl \<le> gold p"
  shows "\<exists>s r. buy_defense p gl = Some (s, r) \<and> sound r \<and> cfg r = cfg p
     \<and> territory r = territory p \<and> expanded_total r = expanded_total p
     \<and> pending_expands r = pending_expands p \<and> has_enemy_intel r = has_enemy_intel p"
proof -
  have "0 \<le> DEF_K (cfg p)" "0 < defense_price p"
    using assms(1,2) defense_price_pos [of p] by (simp_all add: priced_def sound_def)
  from buy_defense_loop_terminates [OF this, of gl 0]
  obtain s r where s: "buy_defense_loop gl 0 p = Some (s, r)" and f: "only_defense_raised p r"
    and b: "0 \<le> s" "s \<le> gl \<or> s = 0"
    by blast
  have "buy_defense p gl = Some (s, r\<lparr>gold := gold r - s\<rparr>)"
    using s by (simp add: buy_defense_def)
  moreover have "sound (r\<lparr>gold := gold r - s\<rparr>)"
    using f b assms(2,3) by (auto simp: sound_def only_defense_raised_def)
  ultimately show ?thesis
    using f by (simp add: only_defense_raised_def)
qed

lemma pay_loop_lowers_gold:
  "pay_loop w b p = (b', q) \<Longrightarrow> only_gold_lowered p q \<and> b \<le> b'"
proof (induction w b p rule: pay_loop.induct)
  case (1 wanted bought p)
  show ?case
  proof (cases "bought < wanted \<and> \<not> gold p < expand_price p bought")
    case False
    then have "pay_loop wanted bought p = (bought, p)"
      by (subst pay_loop.simps) (auto simp: Let_def)
    with "1.prems" show ?thesis by (simp add: only_gold_lowered_def)
  next
    case True
    define q0 where "q0 = p\<lparr>gold := gold p - expand_price p bought\<rparr>"
    have "pay_loop wanted bought p = pay_loop wanted (bought + 1) q0"
      unfolding q0_def using True by (subst pay_loop.simps) (simp add: Let_def)
    with "1.prems" have "pay_loop wanted (bought + 1) q0 = (b', q)" by simp
    with "1.IH" [of "expand_price p bought"] True
    have "only_gold_lowered q0 q \<and> bought + 1 \<le> b'"
      by (simp add: q0_def)
    then show ?thesis
      using True by (auto simp: only_gold_lowered_def q0_def)
  qed
qed

lemma and_then_simps:
  "and_then None f = None"
  "and_then (Some (Inl err)) f = Some (Inl err)"
  "and_then (Some (Inr x)) f = f x"
  by (simp_all add: and_then_def)

lemma apply_commands_stages:
  "apply_commands c player cmd =
     and_then (Some (cmd_int cmd ''sell_attack'')) (\<lambda>v1.
     and_then (Some (cmd_int cmd ''sell_defense'')) (\<lambda>v2.
     and_then (Some (cmd_int cmd ''expand'')) (\<lambda>v3.
     and_then (Some (cmd_int cmd ''spend_attack'')) (\<lambda>v4.
     and_then (map_option Inr (buy_attack (before_spend c player cmd v1 v2 v3)
                 (min (max 0 v4) (gold (before_spend c player cmd v1 v2 v3)))))
       (\<lambda>(real_atk, pe).
     and_then (Some (cmd_int cmd ''spend_defense'')) (\<lambda>v5.
     and_then (map_option Inr (buy_defense pe (min (max 0 v5) (gold pe)))) (\<lambda>(real_def, pf).
     returns pf)))))))"
  by (simp only: apply_commands_def before_spend_def Let_def)


lemma clamp_commute:
  fixes n held :: int
  shows "0 \<le> held \<Longrightarrow> max 0 (min n held) = min (max 0 n) held"
  by (simp add: min_def max_def)

lemma refund_attack_eq:
  assumes "0 \<le> attack p"
  shows "refund_attack p n =
     (spec_sold n (attack p) * (ATK_BASE (cfg p) div 2),
      p\<lparr>attack := attack p - spec_sold n (attack p),
        gold := gold p + spec_sold n (attack p) * (ATK_BASE (cfg p) div 2)\<rparr>)"
  by (simp only: refund_attack_def Let_def spec_sold_def clamp_commute [OF assms])

lemma refund_defense_eq:
  assumes "0 \<le> defense p"
  shows "refund_defense p n =
     (spec_sold n (defense p) * (DEF_BASE (cfg p) div 2),
      p\<lparr>defense := defense p - spec_sold n (defense p),
        gold := gold p + spec_sold n (defense p) * (DEF_BASE (cfg p) div 2)\<rparr>)"
  by (simp only: refund_defense_def Let_def spec_sold_def clamp_commute [OF assms])

lemma spec_sold_bounds: "0 \<le> held \<Longrightarrow> 0 \<le> spec_sold n held \<and> spec_sold n held \<le> held"
  by (simp add: spec_sold_def)

lemma priced_refunding: "priced c \<Longrightarrow> refunding c"
  by (simp add: priced_def refunding_def)

lemma refund_attack_sound:
  assumes "refunding (cfg p)" and "sound p"
  shows "sound (snd (refund_attack p n)) \<and> kept p (snd (refund_attack p n))"
proof -
  have a: "0 \<le> attack p" using assms(2) by (simp add: sound_def)
  have "0 \<le> ATK_BASE (cfg p) div 2"
    using assms(1) by (simp add: refunding_def)
  then have "0 \<le> spec_sold n (attack p) * (ATK_BASE (cfg p) div 2)"
    using spec_sold_bounds [OF a, of n] by simp
  then show ?thesis
    using assms(2) spec_sold_bounds [OF a, of n]
    by (simp add: refund_attack_eq [OF a] sound_def kept_def)
qed

lemma refund_defense_sound:
  assumes "refunding (cfg p)" and "sound p"
  shows "sound (snd (refund_defense p n)) \<and> kept p (snd (refund_defense p n))"
proof -
  have a: "0 \<le> defense p" using assms(2) by (simp add: sound_def)
  have "0 \<le> DEF_BASE (cfg p) div 2"
    using assms(1) by (simp add: refunding_def)
  then have "0 \<le> spec_sold n (defense p) * (DEF_BASE (cfg p) div 2)"
    using spec_sold_bounds [OF a, of n] by simp
  then show ?thesis
    using assms(2) spec_sold_bounds [OF a, of n]
    by (simp add: refund_defense_eq [OF a] sound_def kept_def)
qed

lemma pay_for_expands_sound:
  assumes "sound p"
  shows "sound (snd (pay_for_expands p w)) \<and> kept p (snd (pay_for_expands p w))
     \<and> 0 \<le> pending_expands (snd (pay_for_expands p w))"
proof -
  obtain b q where l: "pay_loop w 0 p = (b, q)" by (cases "pay_loop w 0 p")
  from pay_loop_lowers_gold [OF l] have "only_gold_lowered p q" "0 \<le> b" by simp_all
  moreover have "snd (pay_for_expands p w) = q\<lparr>pending_expands := b\<rparr>"
    using l by (simp add: pay_for_expands_def)
  ultimately show ?thesis
    using assms by (simp add: only_gold_lowered_def sound_def kept_def)
qed

lemma kept_refl: "kept p p"
  by (simp add: kept_def)

lemma kept_trans: "kept p q \<Longrightarrow> kept q r \<Longrightarrow> kept p r"
  by (simp add: kept_def)

lemma either_branch: "Q x \<Longrightarrow> Q y \<Longrightarrow> Q (if b then x else y)"
  by simp

lemma before_spend_sound:
  assumes "refunding (cfg p)" and "sound p"
  shows "sound (before_spend c p cmd v1 v2 v3) \<and> kept p (before_spend c p cmd v1 v2 v3)
     \<and> 0 \<le> pending_expands (before_spend c p cmd v1 v2 v3)"
proof -
  define pa where "pa = (if max 0 v1 \<noteq> 0 then snd (refund_attack p (max 0 v1)) else p)"
  define pb where "pb = (if max 0 v2 \<noteq> 0 then snd (refund_defense pa (max 0 v2)) else pa)"
  define pc where "pc = snd (pay_for_expands pb (max 0 v3))"
  define pd where "pd = (if truthy (cmd_get cmd ''scout'' (PyBool False)) then
                  (if gold pc \<ge> SCOUT_COST c then pc\<lparr>gold := gold pc - SCOUT_COST c\<rparr>
                   else pc)
                else pc)"
  have e: "before_spend c p cmd v1 v2 v3 = pd"
    by (simp only: before_spend_def Let_def pa_def pb_def pc_def pd_def)
  have a: "sound pa \<and> kept p pa"
    unfolding pa_def
    using refund_attack_sound [OF assms, of "max 0 v1"] assms(2) kept_refl [of p]
    by (intro either_branch [where Q = "\<lambda>r. sound r \<and> kept p r"]) blast+
  then have "refunding (cfg pa)" using assms(1) by (simp add: kept_def)
  then have b: "sound pb \<and> kept pa pb"
    unfolding pb_def
    using refund_defense_sound [of pa "max 0 v2"] a kept_refl [of pa]
    by (intro either_branch [where Q = "\<lambda>r. sound r \<and> kept pa r"]) blast+
  then have c: "sound pc \<and> kept pb pc \<and> 0 \<le> pending_expands pc"
    using pay_for_expands_sound [of pb "max 0 v3"] by (simp add: pc_def)
  then have d: "sound pd \<and> kept pc pd \<and> 0 \<le> pending_expands pd"
    by (simp add: pd_def sound_def kept_def)
  have "kept p pd"
    using a b c d kept_trans by blast
  then show ?thesis using d e by simp
qed

lemma cmd_int_cases:
  "(cmd_int cmd k = Inl TypeError \<and> cmd k = Some PyNone)
   \<or> (\<exists>v. cmd_int cmd k = Inr v \<and> cmd k \<noteq> Some PyNone)"
proof (cases "cmd k")
  case None
  then show ?thesis by (simp add: cmd_int_def cmd_get_def)
next
  case (Some v)
  then show ?thesis by (cases v) (simp_all add: cmd_int_def cmd_get_def)
qed

lemma numeric_keys_ok:
  assumes "numeric cmd"
  shows "cmd ''sell_attack'' \<noteq> Some PyNone" "cmd ''sell_defense'' \<noteq> Some PyNone"
    "cmd ''expand'' \<noteq> Some PyNone" "cmd ''spend_attack'' \<noteq> Some PyNone"
    "cmd ''spend_defense'' \<noteq> Some PyNone"
  using assms by (simp_all add: numeric_def numeric_keys_def)

text \<open>What a returned player of \<^verbatim>\<open>_apply_commands\<close> satisfies, and when it is returned.\<close>

lemma apply_commands_sound:
  assumes pr: "priced (cfg p)" and so: "sound p"
  shows "\<exists>out. apply_commands c p cmd = Some out
     \<and> (\<forall>r. out = Inr r \<longrightarrow> sound r \<and> kept p r \<and> 0 \<le> pending_expands r)
     \<and> (numeric cmd \<longrightarrow> (\<exists>r. out = Inr r))"
proof -
  note st = apply_commands_stages [of c p cmd]
  consider (bad1) "cmd_int cmd ''sell_attack'' = Inl TypeError" "cmd ''sell_attack'' = Some PyNone"
    | (ok1) v1 where "cmd_int cmd ''sell_attack'' = Inr v1"
    using cmd_int_cases [of cmd "''sell_attack''"] by blast
  then show ?thesis
  proof cases
    case bad1
    then show ?thesis using numeric_keys_ok(1) [of cmd] by (auto simp: st and_then_simps)
  next
    case ok1
    consider (bad2) "cmd_int cmd ''sell_defense'' = Inl TypeError" "cmd ''sell_defense'' = Some PyNone"
      | (ok2) v2 where "cmd_int cmd ''sell_defense'' = Inr v2"
      using cmd_int_cases [of cmd "''sell_defense''"] by blast
    then show ?thesis
    proof cases
      case bad2
      then show ?thesis using ok1 numeric_keys_ok(2) [of cmd] by (auto simp: st and_then_simps)
    next
      case ok2
      consider (bad3) "cmd_int cmd ''expand'' = Inl TypeError" "cmd ''expand'' = Some PyNone"
        | (ok3) v3 where "cmd_int cmd ''expand'' = Inr v3"
        using cmd_int_cases [of cmd "''expand''"] by blast
      then show ?thesis
      proof cases
        case bad3
        then show ?thesis
          using ok1 ok2 numeric_keys_ok(3) [of cmd] by (auto simp: st and_then_simps)
      next
        case ok3
        consider (bad4) "cmd_int cmd ''spend_attack'' = Inl TypeError" "cmd ''spend_attack'' = Some PyNone"
          | (ok4) v4 where "cmd_int cmd ''spend_attack'' = Inr v4"
          using cmd_int_cases [of cmd "''spend_attack''"] by blast
        then show ?thesis
        proof cases
          case bad4
          then show ?thesis
            using ok1 ok2 ok3 numeric_keys_ok(4) [of cmd] by (auto simp: st and_then_simps)
        next
          case ok4
          define pd where "pd = before_spend c p cmd v1 v2 v3"
          have d: "sound pd" "kept p pd" "0 \<le> pending_expands pd"
            using before_spend_sound [OF priced_refunding [OF pr] so, of c cmd v1 v2 v3]
            by (simp_all add: pd_def)
          then have prd: "priced (cfg pd)" using pr by (simp add: kept_def)
          from buy_attack_sound [OF prd d(1), of "min (max 0 v4) (gold pd)"]
          obtain s pe where ba: "buy_attack pd (min (max 0 v4) (gold pd)) = Some (s, pe)"
            and e: "sound pe" "kept pd pe" "pending_expands pe = pending_expands pd"
            by (auto simp: kept_def)
          then have pre: "priced (cfg pe)" using prd by (simp add: kept_def)
          have bd: "\<exists>s' pf. buy_defense pe (min (max 0 v5) (gold pe)) = Some (s', pf)
              \<and> sound pf \<and> kept pe pf \<and> pending_expands pf = pending_expands pe" for v5
            using buy_defense_sound [OF pre e(1), of "min (max 0 v5) (gold pe)"]
            by (auto simp: kept_def)
          have upto: "apply_commands c p cmd =
              and_then (Some (cmd_int cmd ''spend_defense'')) (\<lambda>v5.
              and_then (map_option Inr (buy_defense pe (min (max 0 v5) (gold pe))))
                (\<lambda>(real_def, pf). returns pf))"
            using ok1 ok2 ok3 ok4 ba by (simp add: st and_then_simps pd_def [symmetric])
          consider (bad5) "cmd_int cmd ''spend_defense'' = Inl TypeError" "cmd ''spend_defense'' = Some PyNone"
            | (ok5) v5 where "cmd_int cmd ''spend_defense'' = Inr v5"
            using cmd_int_cases [of cmd "''spend_defense''"] by blast
          then show ?thesis
          proof cases
            case bad5
            then show ?thesis
              using numeric_keys_ok(5) [of cmd] by (auto simp: upto and_then_simps)
          next
            case ok5
            from bd [of v5] obtain s' pf
              where f: "buy_defense pe (min (max 0 v5) (gold pe)) = Some (s', pf)"
                "sound pf" "kept pe pf" "pending_expands pf = pending_expands pe"
              by blast
            have "apply_commands c p cmd = Some (Inr pf)"
              using ok5 f(1) by (simp add: upto and_then_simps returns_def)
            moreover have "kept p pf"
              using d(2) e(2) f(3) kept_trans by blast
            ultimately show ?thesis
              using f(2,4) e(3) d(3) by simp
          qed
        qed
      qed
    qed
  qed
qed

lemma cmd_int_sanitize:
  assumes "k \<in> set numeric_keys"
  shows "and_then (Some (cmd_int (spec_sanitize cmd) k)) f
       = and_then (Some (cmd_int cmd k)) (\<lambda>v. f (max 0 v))"
proof (cases "cmd k")
  case None
  then show ?thesis
    using assms by (simp add: cmd_int_def cmd_get_def spec_sanitize_def and_then_simps)
next
  case (Some v)
  then show ?thesis
    using assms
    by (cases v) (simp_all add: cmd_int_def cmd_get_def spec_sanitize_def and_then_simps)
qed

lemma numeric_keys_mem:
  "''sell_attack'' \<in> set numeric_keys" "''sell_defense'' \<in> set numeric_keys"
  "''expand'' \<in> set numeric_keys" "''spend_attack'' \<in> set numeric_keys"
  "''spend_defense'' \<in> set numeric_keys" "''scout'' \<notin> set numeric_keys"
  by (simp_all add: numeric_keys_def)

lemma scout_sanitize:
  "cmd_get (spec_sanitize cmd) ''scout'' d = cmd_get cmd ''scout'' d"
  by (simp add: cmd_get_def spec_sanitize_def numeric_keys_mem)

lemma before_spend_clamped:
  "before_spend c p (spec_sanitize cmd) (max 0 v1) (max 0 v2) (max 0 v3)
   = before_spend c p cmd v1 v2 v3"
  by (simp only: before_spend_def scout_sanitize max.left_idem)

lemma apply_commands_sanitize:
  "apply_commands c p (spec_sanitize cmd) = apply_commands c p cmd"
  by (simp only: apply_commands_stages cmd_int_sanitize [OF numeric_keys_mem(1)]
        cmd_int_sanitize [OF numeric_keys_mem(2)] cmd_int_sanitize [OF numeric_keys_mem(3)]
        cmd_int_sanitize [OF numeric_keys_mem(4)] cmd_int_sanitize [OF numeric_keys_mem(5)]
        before_spend_clamped max.left_idem)

lemma commands_p1_first_eq:
  "commands_p1_first e cmd1 cmd2 =
     and_then (apply_commands (ecfg e) (p1 e) cmd1) (\<lambda>r1.
     and_then (apply_commands (ecfg e) (p2 e) cmd2) (\<lambda>r2.
     returns (e\<lparr>p1 := r1, p2 := r2\<rparr>)))"
  by (simp add: commands_p1_first_def apply_commands_pid_def and_then_def returns_def
        split: option.splits sum.splits)

lemma commands_p2_first_eq:
  "commands_p2_first e cmd1 cmd2 =
     and_then (apply_commands (ecfg e) (p2 e) cmd2) (\<lambda>r2.
     and_then (apply_commands (ecfg e) (p1 e) cmd1) (\<lambda>r1.
     returns (e\<lparr>p1 := r1, p2 := r2\<rparr>)))"
  by (simp add: commands_p2_first_def apply_commands_pid_def and_then_def returns_def
        split: option.splits sum.splits)

lemma and_then_swap_returns:
  "(and_then a (\<lambda>x. and_then b (\<lambda>y. returns (f x y))) = Some (Inr z))
   = (and_then b (\<lambda>y. and_then a (\<lambda>x. returns (f x y))) = Some (Inr z))"
  by (auto simp: and_then_def returns_def split: option.splits sum.splits)

lemma and_then_returns_iff:
  "(and_then m (\<lambda>x. returns (g x)) = Some (Inr z)) = (\<exists>x. m = Some (Inr x) \<and> z = g x)"
  by (auto simp: and_then_def returns_def split: option.splits sum.splits)

lemma orders_agree:
  "(commands_p1_first e cmd1 cmd2 = Some (Inr e'))
   = (commands_p2_first e cmd1 cmd2 = Some (Inr e'))"
  unfolding commands_p1_first_eq commands_p2_first_eq
  by (rule and_then_swap_returns)

lemma apply_commands_pid_frame:
  "apply_commands_pid e 1 cmd = Some (Inr e') \<Longrightarrow>
     \<exists>r. apply_commands (ecfg e) (p1 e) cmd = Some (Inr r) \<and> e' = e\<lparr>p1 := r\<rparr>"
  "apply_commands_pid e 2 cmd = Some (Inr e') \<Longrightarrow>
     \<exists>r. apply_commands (ecfg e) (p2 e) cmd = Some (Inr r) \<and> e' = e\<lparr>p2 := r\<rparr>"
  by (auto simp: apply_commands_pid_def and_then_def returns_def split: option.splits sum.splits)

lemma play_turn_applies_p1_first:
  "and_then (apply_commands_pid e 1 cmd1) (\<lambda>e3. and_then (apply_commands_pid e3 2 cmd2) f)
   = and_then (commands_p1_first e cmd1 cmd2) f"
  by (simp add: commands_p1_first_def and_then_def split: option.splits sum.splits)

text \<open>
  Claim C9. For every pair of commands, applying the command of \<^verbatim>\<open>p1\<close> before or after the
  command of \<^verbatim>\<open>p2\<close> returns the same engine state, hence the same allocation afterwards:
  one order returns a state exactly when the other returns that state. Applying a command
  changes only the state of its own player; the other player and the neutral pool are as
  before.
\<close>

theorem command_application_commutes:
  "(commands_p1_first e cmd1 cmd2 = Some (Inr e')
      \<longleftrightarrow> commands_p2_first e cmd1 cmd2 = Some (Inr e'))
   \<and> (and_then (commands_p1_first e cmd1 cmd2) (\<lambda>x. returns (allocate_neutral x)) = Some (Inr e')
      \<longleftrightarrow> and_then (commands_p2_first e cmd1 cmd2) (\<lambda>x. returns (allocate_neutral x))
            = Some (Inr e'))
   \<and> (apply_commands_pid e 1 cmd1 = Some (Inr e') \<longrightarrow>
        e' = e\<lparr>p1 := p1 e'\<rparr> \<and> p2 e' = p2 e \<and> neutral_territory e' = neutral_territory e)
   \<and> (apply_commands_pid e 2 cmd2 = Some (Inr e') \<longrightarrow>
        e' = e\<lparr>p2 := p2 e'\<rparr> \<and> p1 e' = p1 e \<and> neutral_territory e' = neutral_territory e)"
proof -
  have o: "\<And>x. (commands_p1_first e cmd1 cmd2 = Some (Inr x))
             = (commands_p2_first e cmd1 cmd2 = Some (Inr x))"
    by (rule orders_agree)
  have a: "(and_then (commands_p1_first e cmd1 cmd2) (\<lambda>x. returns (allocate_neutral x))
              = Some (Inr e'))
         = (and_then (commands_p2_first e cmd1 cmd2) (\<lambda>x. returns (allocate_neutral x))
              = Some (Inr e'))"
    by (simp only: and_then_returns_iff o)
  have f1: "e' = e\<lparr>p1 := p1 e'\<rparr> \<and> p2 e' = p2 e \<and> neutral_territory e' = neutral_territory e"
    if "apply_commands_pid e 1 cmd1 = Some (Inr e')"
    using apply_commands_pid_frame(1) [OF that] by auto
  have f2: "e' = e\<lparr>p2 := p2 e'\<rparr> \<and> p1 e' = p1 e \<and> neutral_territory e' = neutral_territory e"
    if "apply_commands_pid e 2 cmd2 = Some (Inr e')"
    using apply_commands_pid_frame(2) [OF that] by auto
  show ?thesis
    using o [of e'] a f1 f2 by blast
qed

lemma settings_fields:
  "MAX_TURNS settings = 200" "START_GOLD settings = 50" "START_TERRITORY settings = 30"
  "NEUTRAL_TERRITORY settings = 40" "START_ATTACK settings = 0" "START_DEFENSE settings = 0"
  "GOLD_PER_LAND settings = 1" "EXPAND_BASE settings = 10" "EXPAND_STEP settings = 1"
  "ATK_BASE settings = 20" "ATK_K settings = 1" "DEF_BASE settings = 9" "DEF_K settings = 3"
  "MAINT_ATK settings = 4" "MAINT_DEF settings = 1" "SCOUT_COST settings = 20"
  by (simp_all add: settings_def)

lemma fresh_p1_expand:
  "apply_commands settings (new_player settings) expand_cmd
   = Some (Inr ((new_player settings)\<lparr>gold := 9, attack := 1, pending_expands := 2\<rparr>))"
  by (simp add: apply_commands_def and_then_simps returns_def cmd_int_def cmd_get_def
        expand_cmd_def pay_for_expands_def expand_price_def
        buy_attack_def buy_defense_def buy_attack_loop.simps buy_defense_loop.simps
        attack_price_def defense_price_def new_player_settings settings_fields Let_def)

lemma fresh_p2_scout:
  "apply_commands settings (new_player settings) scout_cmd
   = Some (Inr ((new_player settings)\<lparr>gold := 21, defense := 1\<rparr>))"
  by (simp add: apply_commands_def and_then_simps returns_def cmd_int_def cmd_get_def
        scout_cmd_def pay_for_expands_def expand_price_def
        buy_attack_def buy_defense_def buy_attack_loop.simps buy_defense_loop.simps
        attack_price_def defense_price_def new_player_settings settings_fields Let_def)

lemma fresh_engine_parts:
  "ecfg fresh_engine = settings" "p1 fresh_engine = new_player settings"
  "p2 fresh_engine = new_player settings"
  by (simp_all add: fresh_engine_eq)

theorem command_application_commutes_witness:
  "commands_p1_first fresh_engine expand_cmd scout_cmd
     = Some (Inr (fresh_engine\<lparr>
         p1 := (new_player settings)\<lparr>gold := 9, attack := 1, pending_expands := 2\<rparr>,
         p2 := (new_player settings)\<lparr>gold := 21, defense := 1\<rparr>\<rparr>))
   \<and> commands_p2_first fresh_engine expand_cmd scout_cmd
     = Some (Inr (fresh_engine\<lparr>
         p1 := (new_player settings)\<lparr>gold := 9, attack := 1, pending_expands := 2\<rparr>,
         p2 := (new_player settings)\<lparr>gold := 21, defense := 1\<rparr>\<rparr>))"
  using command_application_commutes [of fresh_engine expand_cmd scout_cmd
      "fresh_engine\<lparr>
         p1 := (new_player settings)\<lparr>gold := 9, attack := 1, pending_expands := 2\<rparr>,
         p2 := (new_player settings)\<lparr>gold := 21, defense := 1\<rparr>\<rparr>"]
  by (simp add: commands_p1_first_eq fresh_engine_parts fresh_p1_expand fresh_p2_scout
        and_then_simps returns_def)

lemma scouting_engine_eq:
  "scouting_engine = \<lparr> ecfg = settings, s1 = scouting_strategy, s2 = dummy_strategy, turn = 1,
     neutral_territory = 40, p1 = new_player settings, p2 = new_player settings,
     history = [\<lparr> snap_turn = 0, snap_neutral = 40,
       snap_p1 = \<lparr> st_territory = 30, st_gold = 50, st_attack = 0, st_defense = 0 \<rparr>,
       snap_p2 = \<lparr> st_territory = 30, st_gold = 50, st_attack = 0, st_defense = 0 \<rparr> \<rparr>] \<rparr>"
  by (simp add: scouting_engine_def new_engine_def reset_def record_snapshot_def stats_of_def
        new_player_def settings_def)

lemma upkeep_no_units:
  "apply_upkeep ((new_player settings)\<lparr>gold := gold (new_player settings)
       + income (new_player settings)\<rparr>)
   = Some ((new_player settings)\<lparr>gold := 80\<rparr>)"
  by (simp add: apply_upkeep_def upkeep_cost_def income_def Let_def new_player_settings
        settings_fields)

lemma scouting_commands:
  "apply_commands settings ((new_player settings)\<lparr>gold := 80\<rparr>)
     [''expand'' \<mapsto> PyInt 6, ''scout'' \<mapsto> PyBool True]
   = Some (Inr ((new_player settings)\<lparr>gold := 5, pending_expands := 6\<rparr>))"
  by (simp add: apply_commands_def and_then_simps returns_def cmd_int_def cmd_get_def
        pay_for_expands_def expand_price_def
        buy_attack_def buy_defense_def buy_attack_loop.simps buy_defense_loop.simps
        attack_price_def defense_price_def new_player_settings settings_fields Let_def)

lemma idle_commands:
  "apply_commands settings ((new_player settings)\<lparr>gold := 80\<rparr>) Map.empty
   = Some (Inr ((new_player settings)\<lparr>gold := 80\<rparr>))"
  by (simp add: apply_commands_def and_then_simps returns_def cmd_int_def cmd_get_def
        pay_for_expands_def expand_price_def
        buy_attack_def buy_defense_def buy_attack_loop.simps buy_defense_loop.simps
        attack_price_def defense_price_def new_player_settings settings_fields Let_def)

lemma play_turn_returns:
  assumes "apply_upkeep ((p1 e)\<lparr>gold := gold (p1 e) + income (p1 e)\<rparr>) = Some q1"
    and "apply_upkeep ((p2 e)\<lparr>gold := gold (p2 e) + income (p2 e)\<rparr>) = Some q2"
    and "safe_step (s1 e) (fst (prepare_obs (e\<lparr>p1 := q1, p2 := q2\<rparr>) q1 q2)) = Inr (cmd1, t1)"
    and "safe_step (s2 e) (fst (prepare_obs (e\<lparr>p1 := q1, p2 := q2\<rparr>) q2 q1)) = Inr (cmd2, t2)"
    and "apply_commands (ecfg e) q1 cmd1 = Some (Inr r1)"
    and "apply_commands (ecfg e) q2 cmd2 = Some (Inr r2)"
  shows "play_turn e = Some (Inr
     ((resolve_combat (allocate_neutral (e\<lparr>s1 := t1, s2 := t2, p1 := r1, p2 := r2\<rparr>)))\<lparr>
        p1 := (p1 (resolve_combat (allocate_neutral (e\<lparr>s1 := t1, s2 := t2, p1 := r1, p2 := r2\<rparr>))))
                \<lparr>has_enemy_intel := truthy (cmd_get cmd1 ''scout'' (PyBool False))\<rparr>,
        p2 := (p2 (resolve_combat (allocate_neutral (e\<lparr>s1 := t1, s2 := t2, p1 := r1, p2 := r2\<rparr>))))
                \<lparr>has_enemy_intel := truthy (cmd_get cmd2 ''scout'' (PyBool False))\<rparr>\<rparr>))"
  using assms
  by (simp add: play_turn_def and_then_simps returns_def Let_def apply_commands_pid_def)


lemma scouting_engine_parts:
  "ecfg scouting_engine = settings" "p1 scouting_engine = new_player settings"
  "p2 scouting_engine = new_player settings" "s1 scouting_engine = scouting_strategy"
  "s2 scouting_engine = dummy_strategy" "turn scouting_engine = 1"
  "neutral_territory scouting_engine = 40" "length (history scouting_engine) = 1"
  by (simp_all add: scouting_engine_eq)

lemma scouting_step:
  "safe_step scouting_strategy obs
   = Inr ([''expand'' \<mapsto> PyInt 6, ''scout'' \<mapsto> PyBool True], scouting_strategy)"
  by (simp add: safe_step_def scouting_strategy_def)

lemma dummy_step: "safe_step dummy_strategy obs = Inr (Map.empty, dummy_strategy)"
  by (simp add: safe_step_def dummy_strategy_def)

lemma scouting_turn:
  "play_turn scouting_engine = Some (Inr (scouting_engine\<lparr>
     neutral_territory := 34,
     p1 := (new_player settings)\<lparr>gold := 5, territory := 36, expanded_total := 6,
             has_enemy_intel := True\<rparr>,
     p2 := (new_player settings)\<lparr>gold := 80\<rparr>\<rparr>))"
proof -
  have g: "spec_contested 6 0 40 = 0" "spec_grantA 6 0 40 = 6" "spec_grantB 6 0 40 = 0"
    "spec_loss (spec_damage 0 0) 36 = 0" "spec_loss (spec_damage 0 0) 30 = 0"
    by (simp_all add: spec_contested_def spec_grantA_def spec_grantB_def spec_loss_def
          spec_damage_def)
  have u1: "apply_upkeep ((p1 scouting_engine)\<lparr>gold := gold (p1 scouting_engine)
       + income (p1 scouting_engine)\<rparr>) = Some ((new_player settings)\<lparr>gold := 80\<rparr>)"
    by (simp only: scouting_engine_parts upkeep_no_units)
  have u2: "apply_upkeep ((p2 scouting_engine)\<lparr>gold := gold (p2 scouting_engine)
       + income (p2 scouting_engine)\<rparr>) = Some ((new_player settings)\<lparr>gold := 80\<rparr>)"
    by (simp only: scouting_engine_parts upkeep_no_units)
  have c1: "apply_commands (ecfg scouting_engine) ((new_player settings)\<lparr>gold := 80\<rparr>)
       [''expand'' \<mapsto> PyInt 6, ''scout'' \<mapsto> PyBool True]
     = Some (Inr ((new_player settings)\<lparr>gold := 5, pending_expands := 6\<rparr>))"
    by (simp only: scouting_engine_parts scouting_commands)
  have c2: "apply_commands (ecfg scouting_engine) ((new_player settings)\<lparr>gold := 80\<rparr>)
       Map.empty = Some (Inr ((new_player settings)\<lparr>gold := 80\<rparr>))"
    by (simp only: scouting_engine_parts idle_commands)
  have "play_turn scouting_engine = Some (Inr
     ((resolve_combat (allocate_neutral (scouting_engine\<lparr>s1 := scouting_strategy,
          s2 := dummy_strategy,
          p1 := (new_player settings)\<lparr>gold := 5, pending_expands := 6\<rparr>,
          p2 := (new_player settings)\<lparr>gold := 80\<rparr>\<rparr>)))\<lparr>
        p1 := (p1 (resolve_combat (allocate_neutral (scouting_engine\<lparr>s1 := scouting_strategy,
          s2 := dummy_strategy,
          p1 := (new_player settings)\<lparr>gold := 5, pending_expands := 6\<rparr>,
          p2 := (new_player settings)\<lparr>gold := 80\<rparr>\<rparr>))))
                \<lparr>has_enemy_intel := truthy (cmd_get [''expand'' \<mapsto> PyInt 6,
                     ''scout'' \<mapsto> PyBool True] ''scout'' (PyBool False))\<rparr>,
        p2 := (p2 (resolve_combat (allocate_neutral (scouting_engine\<lparr>s1 := scouting_strategy,
          s2 := dummy_strategy,
          p1 := (new_player settings)\<lparr>gold := 5, pending_expands := 6\<rparr>,
          p2 := (new_player settings)\<lparr>gold := 80\<rparr>\<rparr>))))
                \<lparr>has_enemy_intel := truthy (cmd_get Map.empty ''scout'' (PyBool False))\<rparr>\<rparr>))"
    by (rule play_turn_returns [OF u1 u2 _ _ c1 c2])
       (simp_all only: scouting_engine_parts scouting_step dummy_step)
  then show ?thesis
    by (simp add: allocate_neutral_eq resolve_combat_eq new_player_settings g
          scouting_engine_eq cmd_get_def)
qed

text \<open>
  Claim C5 at a failing input. With the default settings the first player has 80 gold after
  income, pays 75 for six cells and is left with 5, less than the scout cost 20: nothing is
  deducted for scouting, and the intel flag for the next turn is set all the same.
\<close>

theorem unaffordable_scout_grants_intel:
  "gold (p1 scouting_engine) + income (p1 scouting_engine) - (10 + 11 + 12 + 13 + 14 + 15) = 5
   \<and> SCOUT_COST (ecfg scouting_engine) = 20
   \<and> and_then (play_turn scouting_engine)
        (\<lambda>e. returns (gold (p1 e), has_enemy_intel (p1 e))) = returns (5, True)"
  by (simp add: scouting_turn and_then_simps scouting_engine_parts new_player_settings
        income_def settings_fields)

lemma tame_sstate: "tame (strat\<lparr>sstate := st\<rparr>) = tame strat"
  by (simp add: tame_def cong: step_result.case_cong)

lemma safe_step_tame:
  assumes "tame strat"
  shows "\<exists>cmd t. safe_step strat obs = Inr (cmd, t) \<and> numeric cmd \<and> tame t
     \<and> ((\<forall>c. fst (sstep strat (sstate strat) obs) \<noteq> StepDict c) \<longrightarrow> cmd = Map.empty)"
proof -
  obtain res st where r: "sstep strat (sstate strat) obs = (res, st)"
    by (cases "sstep strat (sstate strat) obs")
  have t: "tame (strat\<lparr>sstate := st\<rparr>)"
    using assms by (simp add: tame_sstate)
  have e: "numeric Map.empty"
    by (simp add: numeric_def numeric_keys_def)
  have c: "case res of StepDict cmd \<Rightarrow> numeric cmd | StepNotDict \<Rightarrow> sformat strat st
      | StepRaised x \<Rightarrow> x = PyException True \<and> sformat strat st"
    using assms r unfolding tame_def by blast
  show ?thesis
  proof (cases res)
    case (StepRaised x)
    then show ?thesis using r t e c by (simp add: safe_step_def)
  next
    case StepNotDict
    then show ?thesis using r t e c by (simp add: safe_step_def)
  next
    case (StepDict cmd)
    then show ?thesis using r t c by (simp add: safe_step_def)
  qed
qed


lemma play_turn_ready:
  assumes "ready e"
  shows "\<exists>e'. play_turn e = Some (Inr e') \<and> ready e' \<and> turn e' = turn e
     \<and> ecfg e' = ecfg e \<and> history e' = history e"
proof -
  from assms have pr: "priced (ecfg e)" and c: "cfg (p1 e) = ecfg e" "cfg (p2 e) = ecfg e"
    and n1: "0 \<le> attack (p1 e)" "0 \<le> defense (p1 e)"
    and n2: "0 \<le> attack (p2 e)" "0 \<le> defense (p2 e)"
    and t: "tame (s1 e)" "tame (s2 e)"
    by (simp_all add: ready_def)
  from apply_upkeep_returns [of "(p1 e)\<lparr>gold := gold (p1 e) + income (p1 e)\<rparr>"] n1
  obtain q1 where q1: "apply_upkeep ((p1 e)\<lparr>gold := gold (p1 e) + income (p1 e)\<rparr>) = Some q1"
    "sound q1" "cfg q1 = ecfg e"
    using c(1) by (auto simp: kept_def)
  from apply_upkeep_returns [of "(p2 e)\<lparr>gold := gold (p2 e) + income (p2 e)\<rparr>"] n2
  obtain q2 where q2: "apply_upkeep ((p2 e)\<lparr>gold := gold (p2 e) + income (p2 e)\<rparr>) = Some q2"
    "sound q2" "cfg q2 = ecfg e"
    using c(2) by (auto simp: kept_def)
  from safe_step_tame [OF t(1)]
  obtain cmd1 t1
    where s1: "safe_step (s1 e) (fst (prepare_obs (e\<lparr>p1 := q1, p2 := q2\<rparr>) q1 q2)) = Inr (cmd1, t1)"
      "numeric cmd1" "tame t1"
    by blast
  from safe_step_tame [OF t(2)]
  obtain cmd2 t2
    where s2: "safe_step (s2 e) (fst (prepare_obs (e\<lparr>p1 := q1, p2 := q2\<rparr>) q2 q1)) = Inr (cmd2, t2)"
      "numeric cmd2" "tame t2"
    by blast
  have "priced (cfg q1)" using pr q1(3) by simp
  from apply_commands_sound [OF this q1(2), of "ecfg e" cmd1] s1(2)
  obtain r1 where r1: "apply_commands (ecfg e) q1 cmd1 = Some (Inr r1)" "sound r1" "kept q1 r1"
    by auto
  have "priced (cfg q2)" using pr q2(3) by simp
  from apply_commands_sound [OF this q2(2), of "ecfg e" cmd2] s2(2)
  obtain r2 where r2: "apply_commands (ecfg e) q2 cmd2 = Some (Inr r2)" "sound r2" "kept q2 r2"
    by auto
  note pt = play_turn_returns [OF q1(1) q2(1) s1(1) s2(1) r1(1) r2(1)]
  define e' where "e' = (resolve_combat (allocate_neutral (e\<lparr>s1 := t1, s2 := t2, p1 := r1, p2 := r2\<rparr>)))\<lparr>
        p1 := (p1 (resolve_combat (allocate_neutral (e\<lparr>s1 := t1, s2 := t2, p1 := r1, p2 := r2\<rparr>))))
                \<lparr>has_enemy_intel := truthy (cmd_get cmd1 ''scout'' (PyBool False))\<rparr>,
        p2 := (p2 (resolve_combat (allocate_neutral (e\<lparr>s1 := t1, s2 := t2, p1 := r1, p2 := r2\<rparr>))))
                \<lparr>has_enemy_intel := truthy (cmd_get cmd2 ''scout'' (PyBool False))\<rparr>\<rparr>"
  have "play_turn e = Some (Inr e')"
    unfolding e'_def by (rule pt)
  moreover have "ready e'"
    using pr q1(3) q2(3) r1(2,3) r2(2,3) s1(3) s2(3)
    by (simp add: e'_def ready_def allocate_neutral_eq resolve_combat_eq sound_def kept_def)
  moreover have "turn e' = turn e" "ecfg e' = ecfg e" "history e' = history e"
    by (simp_all add: e'_def allocate_neutral_eq resolve_combat_eq)
  ultimately show ?thesis by blast
qed


lemma run_loop_stop: "\<not> turn e < MAX_TURNS (ecfg e) \<Longrightarrow> run_loop e = Some (Inr e)"
  by (subst run_loop.simps) simp

lemma run_loop_step:
  assumes "turn e < MAX_TURNS (ecfg e)" and "play_turn (e\<lparr>turn := turn e + 1\<rparr>) = Some out"
  shows "run_loop e = (case out of Inl err \<Rightarrow> Some (Inl err)
           | Inr e' \<Rightarrow> if winner_declared e' then Some (Inr e') else run_loop e')"
  using assms by (subst run_loop.simps) (simp add: handle_gui_events_def)

lemma run_loop_ready:
  "ready e \<Longrightarrow> \<exists>e'. run_loop e = Some (Inr e') \<and> ecfg e' = ecfg e \<and> turn e \<le> turn e'
     \<and> turn e' \<le> max (turn e) (MAX_TURNS (ecfg e)) \<and> history e' = history e
     \<and> (turn e < MAX_TURNS (ecfg e) \<longrightarrow> turn e < turn e')"
proof (induction "nat (MAX_TURNS (ecfg e) - turn e)" arbitrary: e rule: less_induct)
  case less
  show ?case
  proof (cases "turn e < MAX_TURNS (ecfg e)")
    case False
    then show ?thesis using run_loop_stop [of e] by simp
  next
    case True
    have "ready (e\<lparr>turn := turn e + 1\<rparr>)"
      using less.prems by (simp add: ready_def)
    from play_turn_ready [OF this]
    obtain e1 where e1: "play_turn (e\<lparr>turn := turn e + 1\<rparr>) = Some (Inr e1)" "ready e1"
      "turn e1 = turn e + 1" "ecfg e1 = ecfg e" "history e1 = history e"
      by auto
    from run_loop_step [OF True e1(1)]
    have rl: "run_loop e = (if winner_declared e1 then Some (Inr e1) else run_loop e1)"
      by simp
    show ?thesis
    proof (cases "winner_declared e1")
      case True
      then show ?thesis using rl e1 \<open>turn e < MAX_TURNS (ecfg e)\<close> by simp
    next
      case False
      have "nat (MAX_TURNS (ecfg e1) - turn e1) < nat (MAX_TURNS (ecfg e) - turn e)"
        using e1(3,4) True by simp
      from less.hyps [OF this e1(2)]
      obtain e2 where e2: "run_loop e1 = Some (Inr e2)" "ecfg e2 = ecfg e1" "turn e1 \<le> turn e2"
        "turn e2 \<le> max (turn e1) (MAX_TURNS (ecfg e1))" "history e2 = history e1"
        by blast
      then show ?thesis using rl False e1(3,4,5) True by simp
    qed
  qed
qed

lemma reset_fields:
  "ecfg (reset e) = ecfg e" "s1 (reset e) = s1 e" "s2 (reset e) = s2 e" "turn (reset e) = 0"
  "p1 (reset e) = new_player (ecfg e)" "p2 (reset e) = new_player (ecfg e)"
  by (simp_all add: reset_def record_snapshot_def)

lemma observation_ignores_strategies:
  "observation (e\<lparr>s1 := x\<rparr>) pid = observation e pid"
  by (simp add: observation_def prepare_obs_def)

lemma check_winner_end:
  "check_winner e True \<in> {Some player1, Some player2, Some draw}"
  by (simp add: check_winner_def Let_def)

lemma run_returns:
  assumes pr: "priced (ecfg e)" and st: "0 \<le> START_ATTACK (ecfg e)" "0 \<le> START_DEFENSE (ecfg e)"
    and ta: "tame (s1 e)" "tame (s2 e)"
    and r1: "sreset (s1 e) (sstate (s1 e)) (observation (reset e) 1) = Inr t1"
    and r2: "sreset (s2 e) (sstate (s2 e)) (observation (reset e) 2) = Inr t2"
  shows "\<exists>res e'. run e = Some (Inr (res, e'))
     \<and> winner res \<in> {Some player1, Some player2, Some draw}
     \<and> 0 \<le> turns res \<and> turns res \<le> max 0 (MAX_TURNS (ecfg e))
     \<and> (0 < MAX_TURNS (ecfg e) \<longrightarrow> 1 \<le> turns res)
     \<and> history e' = history (reset e)"
proof -
  define e2 where "e2 = (reset e)\<lparr>s1 := (s1 e)\<lparr>sstate := t1\<rparr>, s2 := (s2 e)\<lparr>sstate := t2\<rparr>\<rparr>"
  have "ready e2"
    using pr st ta
    by (simp add: e2_def ready_def reset_fields new_player_def tame_sstate)
  from run_loop_ready [OF this]
  obtain e3 where e3: "run_loop e2 = Some (Inr e3)" "ecfg e3 = ecfg e2" "turn e2 \<le> turn e3"
    "turn e3 \<le> max (turn e2) (MAX_TURNS (ecfg e2))" "history e3 = history e2"
    "turn e2 < MAX_TURNS (ecfg e2) \<longrightarrow> turn e2 < turn e3"
    by blast
  have f: "turn e2 = 0" "ecfg e2 = ecfg e" "history e2 = history (reset e)"
    by (simp_all add: e2_def reset_fields)
  have "run e = Some (Inr (result e3 True, e3))"
    using r1 r2 e3(1)
    by (simp add: run_def Let_def reset_fields observation_ignores_strategies and_then_simps
          returns_def e2_def)
  moreover have "winner (result e3 True) \<in> {Some player1, Some player2, Some draw}"
    using check_winner_end [of e3] by (simp add: result_def)
  moreover have "turns (result e3 True) = turn e3"
    by (simp add: result_def)
  ultimately show ?thesis
    using e3(3,4,5,6) f by auto
qed



lemma new_engine_default:
  "new_engine a b None = \<lparr> ecfg = settings, s1 = a, s2 = b, turn = 0,
     neutral_territory = 40, p1 = new_player settings, p2 = new_player settings,
     history = [\<lparr> snap_turn = 0, snap_neutral = 40,
       snap_p1 = \<lparr> st_territory = 30, st_gold = 50, st_attack = 0, st_defense = 0 \<rparr>,
       snap_p2 = \<lparr> st_territory = 30, st_gold = 50, st_attack = 0, st_defense = 0 \<rparr> \<rparr>] \<rparr>"
  by (simp add: new_engine_def reset_def record_snapshot_def stats_of_def
        new_player_settings settings_fields)

lemma new_engine_fields:
  "ecfg (new_engine a b None) = settings" "s1 (new_engine a b None) = a"
  "s2 (new_engine a b None) = b" "turn (new_engine a b None) = 0"
  "p1 (new_engine a b None) = new_player settings"
  "p2 (new_engine a b None) = new_player settings"
  by (simp_all add: new_engine_default)


lemma priced_settings: "priced settings"
  by (simp add: priced_def settings_fields)

lemma tame_examples: "tame crashing_strategy" "tame dummy_strategy"
  by (auto simp: tame_def crashing_strategy_def dummy_strategy_def numeric_def
        numeric_keys_def)






text \<open>
  Claim C4 at a failing input. The history holds the initial snapshot when turn 1 starts,
  and the completed turn 1 leaves it as it is: no snapshot is appended. A whole run of two
  do-nothing strategies with the default settings plays at least one turn and ends with a
  history of one entry.
\<close>

theorem completed_turn_appends_no_snapshot:
  "length (history scouting_engine) = 1
   \<and> and_then (play_turn scouting_engine) (\<lambda>e. returns (turn e, history e))
       = returns (1, history scouting_engine)
   \<and> (\<exists>res e'. run fresh_engine = Some (Inr (res, e')) \<and> 1 \<le> turns res
         \<and> length (history e') = 1)"
proof -
  have "sreset (s1 fresh_engine) (sstate (s1 fresh_engine)) (observation (reset fresh_engine) 1)
      = Inr ()"
    "sreset (s2 fresh_engine) (sstate (s2 fresh_engine)) (observation (reset fresh_engine) 2)
      = Inr ()"
    by (simp_all add: fresh_engine_def new_engine_fields dummy_strategy_def)
  from run_returns [OF _ _ _ _ _ this]
  have "\<exists>res e'. run fresh_engine = Some (Inr (res, e')) \<and> 1 \<le> turns res
         \<and> history e' = history (reset fresh_engine)"
    by (simp add: fresh_engine_def new_engine_fields priced_settings tame_examples
          settings_fields) blast
  moreover have "length (history (reset fresh_engine)) = 1"
    by (simp add: reset_def record_snapshot_def)
  ultimately show ?thesis
    by (auto simp: scouting_turn and_then_simps scouting_engine_parts)
qed

lemma buy_attack_loop_partial:
  assumes "buy_attack_loop gl sp p = Some y"
  shows "only_attack_raised p (snd y) \<and> (fst y \<le> gl \<or> fst y = sp)"
proof (rule buy_attack_loop.raw_induct
    [where P = "\<lambda>gl sp p y. only_attack_raised p (snd y) \<and> (fst y \<le> gl \<or> fst y = sp)",
      OF _ assms])
  fix f gl sp p y
  assume IH: "\<And>a b c z. f a b c = Some z \<Longrightarrow>
      only_attack_raised c (snd z) \<and> (fst z \<le> a \<or> fst z = b)"
    and body: "(if attack_price p \<le> gl - sp
      then f gl (sp + attack_price p) (p\<lparr>attack := attack p + 1\<rparr>)
      else Some (sp, p)) = Some y"
  show "only_attack_raised p (snd y) \<and> (fst y \<le> gl \<or> fst y = sp)"
  proof (cases "attack_price p \<le> gl - sp")
    case True
    with body have "f gl (sp + attack_price p) (p\<lparr>attack := attack p + 1\<rparr>) = Some y"
      by simp
    from IH [OF this] True show ?thesis
      by (auto simp: only_attack_raised_def)
  next
    case False
    with body show ?thesis by (auto simp: only_attack_raised_def)
  qed
qed

lemma buy_defense_loop_partial:
  assumes "buy_defense_loop gl sp p = Some y"
  shows "only_defense_raised p (snd y) \<and> (fst y \<le> gl \<or> fst y = sp)"
proof (rule buy_defense_loop.raw_induct
    [where P = "\<lambda>gl sp p y. only_defense_raised p (snd y) \<and> (fst y \<le> gl \<or> fst y = sp)",
      OF _ assms])
  fix f gl sp p y
  assume IH: "\<And>a b c z. f a b c = Some z \<Longrightarrow>
      only_defense_raised c (snd z) \<and> (fst z \<le> a \<or> fst z = b)"
    and body: "(if defense_price p \<le> gl - sp
      then f gl (sp + defense_price p) (p\<lparr>defense := defense p + 1\<rparr>)
      else Some (sp, p)) = Some y"
  show "only_defense_raised p (snd y) \<and> (fst y \<le> gl \<or> fst y = sp)"
  proof (cases "defense_price p \<le> gl - sp")
    case True
    with body have "f gl (sp + defense_price p) (p\<lparr>defense := defense p + 1\<rparr>) = Some y"
      by simp
    from IH [OF this] True show ?thesis
      by (auto simp: only_defense_raised_def)
  next
    case False
    with body show ?thesis by (auto simp: only_defense_raised_def)
  qed
qed

lemma buy_attack_partial:
  assumes "buy_attack p gl = Some (s, r)" and "sound p" and "gl \<le> gold p"
  shows "sound r \<and> kept p r \<and> pending_expands r = pending_expands p"
proof -
  from assms(1) obtain s0 q where l: "buy_attack_loop gl 0 p = Some (s0, q)"
    and r: "r = q\<lparr>gold := gold q - s0\<rparr>"
    by (auto simp: buy_attack_def split: option.splits)
  from buy_attack_loop_partial [OF l]
  have "only_attack_raised p q" "s0 \<le> gl \<or> s0 = 0" by simp_all
  then show ?thesis
    using assms(2,3) r by (auto simp: sound_def kept_def only_attack_raised_def)
qed

lemma buy_defense_partial:
  assumes "buy_defense p gl = Some (s, r)" and "sound p" and "gl \<le> gold p"
  shows "sound r \<and> kept p r \<and> pending_expands r = pending_expands p"
proof -
  from assms(1) obtain s0 q where l: "buy_defense_loop gl 0 p = Some (s0, q)"
    and r: "r = q\<lparr>gold := gold q - s0\<rparr>"
    by (auto simp: buy_defense_def split: option.splits)
  from buy_defense_loop_partial [OF l]
  have "only_defense_raised p q" "s0 \<le> gl \<or> s0 = 0" by simp_all
  then show ?thesis
    using assms(2,3) r by (auto simp: sound_def kept_def only_defense_raised_def)
qed

lemma and_then_Some_Inr:
  "and_then (Some v) f = Some (Inr r) \<Longrightarrow> \<exists>x. v = Inr x \<and> f x = Some (Inr r)"
  by (cases v) (simp_all add: and_then_def)

lemma and_then_map_Inr:
  "and_then (map_option Inr m) f = Some (Inr r) \<Longrightarrow> \<exists>x. m = Some x \<and> f x = Some (Inr r)"
  by (cases m) (simp_all add: and_then_def)

lemma apply_commands_partial:
  assumes rf: "refunding (cfg p)" and so: "sound p"
    and ap: "apply_commands c p cmd = Some (Inr r)"
  shows "sound r \<and> kept p r \<and> 0 \<le> pending_expands r"
proof -
  from ap [unfolded apply_commands_stages]
  obtain v1 where a1: "and_then (Some (cmd_int cmd ''sell_defense'')) (\<lambda>v2.
     and_then (Some (cmd_int cmd ''expand'')) (\<lambda>v3.
     and_then (Some (cmd_int cmd ''spend_attack'')) (\<lambda>v4.
     and_then (map_option Inr (buy_attack (before_spend c p cmd v1 v2 v3)
                 (min (max 0 v4) (gold (before_spend c p cmd v1 v2 v3)))))
       (\<lambda>(real_atk, pe).
     and_then (Some (cmd_int cmd ''spend_defense'')) (\<lambda>v5.
     and_then (map_option Inr (buy_defense pe (min (max 0 v5) (gold pe)))) (\<lambda>(real_def, pf).
     returns pf)))))) = Some (Inr r)"
    by (blast dest: and_then_Some_Inr)
  then obtain v2 where a2: "and_then (Some (cmd_int cmd ''expand'')) (\<lambda>v3.
     and_then (Some (cmd_int cmd ''spend_attack'')) (\<lambda>v4.
     and_then (map_option Inr (buy_attack (before_spend c p cmd v1 v2 v3)
                 (min (max 0 v4) (gold (before_spend c p cmd v1 v2 v3)))))
       (\<lambda>(real_atk, pe).
     and_then (Some (cmd_int cmd ''spend_defense'')) (\<lambda>v5.
     and_then (map_option Inr (buy_defense pe (min (max 0 v5) (gold pe)))) (\<lambda>(real_def, pf).
     returns pf))))) = Some (Inr r)"
    by (blast dest: and_then_Some_Inr)
  then obtain v3 where a3: "and_then (Some (cmd_int cmd ''spend_attack'')) (\<lambda>v4.
     and_then (map_option Inr (buy_attack (before_spend c p cmd v1 v2 v3)
                 (min (max 0 v4) (gold (before_spend c p cmd v1 v2 v3)))))
       (\<lambda>(real_atk, pe).
     and_then (Some (cmd_int cmd ''spend_defense'')) (\<lambda>v5.
     and_then (map_option Inr (buy_defense pe (min (max 0 v5) (gold pe)))) (\<lambda>(real_def, pf).
     returns pf)))) = Some (Inr r)"
    by (blast dest: and_then_Some_Inr)
  define pd where "pd = before_spend c p cmd v1 v2 v3"
  from a3 obtain v4 where a4: "and_then (map_option Inr (buy_attack pd (min (max 0 v4) (gold pd))))
       (\<lambda>(real_atk, pe).
     and_then (Some (cmd_int cmd ''spend_defense'')) (\<lambda>v5.
     and_then (map_option Inr (buy_defense pe (min (max 0 v5) (gold pe)))) (\<lambda>(real_def, pf).
     returns pf))) = Some (Inr r)"
    unfolding pd_def by (blast dest: and_then_Some_Inr)
  then obtain s pe where ba: "buy_attack pd (min (max 0 v4) (gold pd)) = Some (s, pe)"
    and a5: "and_then (Some (cmd_int cmd ''spend_defense'')) (\<lambda>v5.
     and_then (map_option Inr (buy_defense pe (min (max 0 v5) (gold pe)))) (\<lambda>(real_def, pf).
     returns pf)) = Some (Inr r)"
    by (auto dest!: and_then_map_Inr)
  then obtain v5 where a6: "and_then (map_option Inr (buy_defense pe (min (max 0 v5) (gold pe))))
       (\<lambda>(real_def, pf). returns pf) = Some (Inr r)"
    by (blast dest: and_then_Some_Inr)
  then obtain s' where bd: "buy_defense pe (min (max 0 v5) (gold pe)) = Some (s', r)"
    by (auto dest!: and_then_map_Inr simp: returns_def)
  have d: "sound pd" "kept p pd" "0 \<le> pending_expands pd"
    using before_spend_sound [OF rf so, of c cmd v1 v2 v3] by (simp_all add: pd_def)
  have e: "sound pe" "kept pd pe" "pending_expands pe = pending_expands pd"
    using buy_attack_partial [OF ba d(1)] by simp_all
  have f: "sound r" "kept pe r" "pending_expands r = pending_expands pe"
    using buy_defense_partial [OF bd e(1)] by simp_all
  have "kept p r" using d(2) e(2) f(2) kept_trans by blast
  then show ?thesis using f e(3) d(3) by simp
qed

lemma spec_sold_max: "spec_sold (max 0 n) held = spec_sold n held"
  by (simp add: spec_sold_def)

lemma spec_sold_none: "max 0 n = 0 \<Longrightarrow> 0 \<le> held \<Longrightarrow> spec_sold n held = 0"
  by (simp add: spec_sold_def)

lemma after_attack_sale:
  assumes "0 \<le> attack p"
  shows "(if max 0 v1 \<noteq> 0 then snd (refund_attack p (max 0 v1)) else p)
     = p\<lparr>attack := attack p - spec_sold v1 (attack p),
         gold := gold p + spec_sold v1 (attack p) * (ATK_BASE (cfg p) div 2)\<rparr>"
proof (cases "max 0 v1 = 0")
  case True
  then show ?thesis using spec_sold_none [OF True assms] by simp
next
  case False
  then show ?thesis
    by (simp only: refund_attack_eq [OF assms] spec_sold_max snd_conv if_True
          not_False_eq_True)
qed

lemma after_defense_sale:
  assumes "0 \<le> defense p"
  shows "(if max 0 v2 \<noteq> 0 then snd (refund_defense p (max 0 v2)) else p)
     = p\<lparr>defense := defense p - spec_sold v2 (defense p),
         gold := gold p + spec_sold v2 (defense p) * (DEF_BASE (cfg p) div 2)\<rparr>"
proof (cases "max 0 v2 = 0")
  case True
  then show ?thesis using spec_sold_none [OF True assms] by simp
next
  case False
  then show ?thesis
    by (simp only: refund_defense_eq [OF assms] spec_sold_max snd_conv if_True
          not_False_eq_True)
qed

lemma after_both_sales:
  assumes "0 \<le> attack p" and "0 \<le> defense p"
  shows "(if max 0 v2 \<noteq> 0
          then snd (refund_defense
                 (if max 0 v1 \<noteq> 0 then snd (refund_attack p (max 0 v1)) else p) (max 0 v2))
          else (if max 0 v1 \<noteq> 0 then snd (refund_attack p (max 0 v1)) else p))
     = spec_after_sales p v1 v2"
proof -
  define pa where "pa = p\<lparr>attack := attack p - spec_sold v1 (attack p),
         gold := gold p + spec_sold v1 (attack p) * (ATK_BASE (cfg p) div 2)\<rparr>"
  have d: "0 \<le> defense pa" "defense pa = defense p" "cfg pa = cfg p"
    "gold pa = gold p + spec_sold v1 (attack p) * (ATK_BASE (cfg p) div 2)"
    using assms(2) by (simp_all add: pa_def)
  have "(if max 0 v2 \<noteq> 0 then snd (refund_defense pa (max 0 v2)) else pa)
     = pa\<lparr>defense := defense pa - spec_sold v2 (defense pa),
         gold := gold pa + spec_sold v2 (defense pa) * (DEF_BASE (cfg pa) div 2)\<rparr>"
    by (rule after_defense_sale [OF d(1)])
  also have "\<dots> = spec_after_sales p v1 v2"
    by (simp add: d(2-4) spec_after_sales_def) (simp add: pa_def)
  finally show ?thesis
    by (simp only: after_attack_sale [OF assms(1)] pa_def)
qed

lemma before_spend_after_sales:
  assumes "0 \<le> attack p" and "0 \<le> defense p"
  shows "before_spend c p cmd v1 v2 v3 = before_spend c (spec_after_sales p v1 v2) cmd 0 0 v3"
proof -
  have l: "before_spend c p cmd v1 v2 v3 =
     (let pc = snd (pay_for_expands (spec_after_sales p v1 v2) (max 0 v3))
      in if truthy (cmd_get cmd ''scout'' (PyBool False)) then
           (if gold pc \<ge> SCOUT_COST c then pc\<lparr>gold := gold pc - SCOUT_COST c\<rparr> else pc)
         else pc)"
    by (simp only: before_spend_def Let_def after_both_sales [OF assms])
  have r: "before_spend c (spec_after_sales p v1 v2) cmd 0 0 v3 =
     (let pc = snd (pay_for_expands (spec_after_sales p v1 v2) (max 0 v3))
      in if truthy (cmd_get cmd ''scout'' (PyBool False)) then
           (if gold pc \<ge> SCOUT_COST c then pc\<lparr>gold := gold pc - SCOUT_COST c\<rparr> else pc)
         else pc)"
    by (simp add: before_spend_def Let_def)
  show ?thesis by (simp only: l r)
qed

lemma cmd_int_without_sales:
  "cmd_int (cmd(''sell_attack'' := None, ''sell_defense'' := None)) ''sell_attack'' = Inr 0"
  "cmd_int (cmd(''sell_attack'' := None, ''sell_defense'' := None)) ''sell_defense'' = Inr 0"
  "cmd_int (cmd(''sell_attack'' := None, ''sell_defense'' := None)) ''expand''
     = cmd_int cmd ''expand''"
  "cmd_int (cmd(''sell_attack'' := None, ''sell_defense'' := None)) ''spend_attack''
     = cmd_int cmd ''spend_attack''"
  "cmd_int (cmd(''sell_attack'' := None, ''sell_defense'' := None)) ''spend_defense''
     = cmd_int cmd ''spend_defense''"
  "cmd_get (cmd(''sell_attack'' := None, ''sell_defense'' := None)) ''scout'' d
     = cmd_get cmd ''scout'' d"
  by (simp_all add: cmd_int_def cmd_get_def)

lemma before_spend_scout_only:
  "cmd_get cmd' ''scout'' (PyBool False) = cmd_get cmd ''scout'' (PyBool False)
   \<Longrightarrow> before_spend c p cmd' v1 v2 v3 = before_spend c p cmd v1 v2 v3"
  by (simp only: before_spend_def)

lemma sales_first:
  assumes "0 \<le> attack p" and "0 \<le> defense p"
    and "cmd_int cmd ''sell_attack'' = Inr v1" and "cmd_int cmd ''sell_defense'' = Inr v2"
  shows "apply_commands c p cmd
     = apply_commands c (spec_after_sales p v1 v2)
         (cmd(''sell_attack'' := None, ''sell_defense'' := None))"
proof -
  have b: "before_spend c (spec_after_sales p v1 v2)
       (cmd(''sell_attack'' := None, ''sell_defense'' := None)) 0 0 v3
     = before_spend c p cmd v1 v2 v3" for v3
    using before_spend_scout_only [OF cmd_int_without_sales(6)]
      before_spend_after_sales [OF assms(1,2)] by simp
  show ?thesis
    by (simp only: apply_commands_stages [of c p cmd]
          apply_commands_stages [of c "spec_after_sales p v1 v2"]
          cmd_int_without_sales assms(3,4) and_then_simps b)
qed

lemma pay_for_nothing: "pay_for_expands q 0 = (0, q\<lparr>pending_expands := 0\<rparr>)"
  by (simp add: pay_for_expands_def)

lemma before_spend_idle: "before_spend c q Map.empty 0 0 0 = q\<lparr>pending_expands := 0\<rparr>"
  by (simp add: before_spend_def pay_for_nothing cmd_get_def)

lemma idle_stages:
  "apply_commands c q Map.empty =
     and_then (map_option Inr (buy_attack (q\<lparr>pending_expands := 0\<rparr>) (min 0 (gold q))))
       (\<lambda>(real_atk, pe).
     and_then (map_option Inr (buy_defense pe (min 0 (gold pe)))) (\<lambda>(real_def, pf).
     returns pf))"
  by (simp add: apply_commands_stages cmd_int_def cmd_get_def and_then_simps before_spend_idle)

lemma buy_attack_nothing:
  assumes "0 < attack_price q"
  shows "buy_attack q 0 = Some (0, q)"
proof -
  have "buy_attack_loop 0 0 q = Some (0, q)"
    using assms by (subst buy_attack_loop.simps) simp
  then show ?thesis by (simp add: buy_attack_def)
qed

lemma buy_defense_nothing:
  assumes "0 < defense_price q"
  shows "buy_defense q 0 = Some (0, q)"
proof -
  have "buy_defense_loop 0 0 q = Some (0, q)"
    using assms by (subst buy_defense_loop.simps) simp
  then show ?thesis by (simp add: buy_defense_def)
qed

lemma idle_commands_priced:
  assumes "priced (cfg q)" and "sound q"
  shows "apply_commands c q Map.empty = returns (q\<lparr>pending_expands := 0\<rparr>)"
proof -
  have g: "min 0 (gold q) = 0" using assms(2) by (simp add: sound_def)
  have a: "0 < attack_price (q\<lparr>pending_expands := 0\<rparr>)"
    using attack_price_pos [of "q\<lparr>pending_expands := 0\<rparr>"] assms by (simp add: sound_def)
  have d: "0 < defense_price (q\<lparr>pending_expands := 0\<rparr>)"
    using defense_price_pos [of "q\<lparr>pending_expands := 0\<rparr>"] assms by (simp add: sound_def)
  show ?thesis
    by (simp add: idle_stages g buy_attack_nothing [OF a] buy_defense_nothing [OF d]
          and_then_simps)
qed

lemma spec_after_sales_sound:
  assumes "refunding (cfg p)" and "sound p"
  shows "sound (spec_after_sales p v1 v2) \<and> cfg (spec_after_sales p v1 v2) = cfg p"
proof -
  have a: "0 \<le> attack p" and d: "0 \<le> defense p" and g: "0 \<le> gold p"
    using assms(2) by (simp_all add: sound_def)
  have "0 \<le> ATK_BASE (cfg p) div 2" "0 \<le> DEF_BASE (cfg p) div 2"
    using assms(1) by (simp_all add: refunding_def)
  then have "0 \<le> spec_sold v1 (attack p) * (ATK_BASE (cfg p) div 2)"
    "0 \<le> spec_sold v2 (defense p) * (DEF_BASE (cfg p) div 2)"
    using spec_sold_bounds [OF a, of v1] spec_sold_bounds [OF d, of v2] by simp_all
  then show ?thesis
    using g spec_sold_bounds [OF a, of v1] spec_sold_bounds [OF d, of v2]
    by (simp add: spec_after_sales_def sound_def)
qed

lemma only_sales:
  assumes "dom cmd \<subseteq> {''sell_attack'', ''sell_defense''}"
  shows "cmd(''sell_attack'' := None, ''sell_defense'' := None) = Map.empty"
proof
  fix k
  show "(cmd(''sell_attack'' := None, ''sell_defense'' := None)) k = Map.empty k"
    using assms by (cases "cmd k") auto
qed

lemma sales_only_commands:
  assumes "priced (cfg p)" and "sound p"
    and "cmd_int cmd ''sell_attack'' = Inr v1" and "cmd_int cmd ''sell_defense'' = Inr v2"
    and "dom cmd \<subseteq> {''sell_attack'', ''sell_defense''}"
  shows "apply_commands c p cmd = returns ((spec_after_sales p v1 v2)\<lparr>pending_expands := 0\<rparr>)"
proof -
  have s: "sound (spec_after_sales p v1 v2)" "priced (cfg (spec_after_sales p v1 v2))"
    using spec_after_sales_sound [OF priced_refunding [OF assms(1)] assms(2), of v1 v2] assms(1)
    by simp_all
  have a: "0 \<le> attack p" "0 \<le> defense p" using assms(2) by (simp_all add: sound_def)
  show ?thesis
    by (simp only: sales_first [OF a assms(3,4)] only_sales [OF assms(5)]
          idle_commands_priced [OF s(2,1)])
qed

text \<open>
  Claim C10, amended. Under settings whose attack and defense base prices are not
  negative, from a player whose gold, attack and defense are not negative, command
  application sanitises the numeric fields. It does the same on a command and on the
  command whose negative numeric fields are set to zero. It does the same as selling first
  and applying the command without its sell fields, where a sale is of the request cut to
  the interval from zero to the units held and refunds \<open>floor(base price / 2)\<close> for each
  unit sold; a command with sell fields only returns exactly the player after the sales
  (with priced settings). Whenever it returns, gold, attack and defense are not negative;
  and with priced settings it ends, and returns whenever no numeric field is \<^verbatim>\<open>None\<close>.
\<close>

theorem apply_commands_sanitizes:
  assumes "0 \<le> ATK_BASE (cfg p)" and "0 \<le> DEF_BASE (cfg p)"
    and "0 \<le> gold p" and "0 \<le> attack p" and "0 \<le> defense p"
  shows "apply_commands c p cmd = apply_commands c p (spec_sanitize cmd)
     \<and> (cmd_int cmd ''sell_attack'' = Inr v1 \<and> cmd_int cmd ''sell_defense'' = Inr v2 \<longrightarrow>
          apply_commands c p cmd
            = apply_commands c (spec_after_sales p v1 v2)
                (cmd(''sell_attack'' := None, ''sell_defense'' := None))
          \<and> (priced (cfg p) \<and> dom cmd \<subseteq> {''sell_attack'', ''sell_defense''} \<longrightarrow>
               apply_commands c p cmd
                 = returns ((spec_after_sales p v1 v2)\<lparr>pending_expands := 0\<rparr>)))
     \<and> (\<forall>r. apply_commands c p cmd = Some (Inr r)
          \<longrightarrow> 0 \<le> gold r \<and> 0 \<le> attack r \<and> 0 \<le> defense r)
     \<and> (priced (cfg p) \<longrightarrow>
          (\<exists>out. apply_commands c p cmd = Some out \<and> (numeric cmd \<longrightarrow> (\<exists>r. out = Inr r))))
     \<and> refund_attack p n =
          (spec_sold n (attack p) * (ATK_BASE (cfg p) div 2),
           p\<lparr>attack := attack p - spec_sold n (attack p),
             gold := gold p + spec_sold n (attack p) * (ATK_BASE (cfg p) div 2)\<rparr>)
     \<and> refund_defense p n =
          (spec_sold n (defense p) * (DEF_BASE (cfg p) div 2),
           p\<lparr>defense := defense p - spec_sold n (defense p),
             gold := gold p + spec_sold n (defense p) * (DEF_BASE (cfg p) div 2)\<rparr>)
     \<and> 0 \<le> spec_sold n (attack p) \<and> spec_sold n (attack p) \<le> attack p
     \<and> 0 \<le> spec_sold n (defense p) \<and> spec_sold n (defense p) \<le> defense p"
proof -
  have so: "sound p" using assms(3-5) by (simp add: sound_def)
  have rf: "refunding (cfg p)" using assms(1,2) by (simp add: refunding_def)
  have a: "apply_commands c p cmd = apply_commands c p (spec_sanitize cmd)"
    by (simp only: apply_commands_sanitize)
  have b: "apply_commands c p cmd
            = apply_commands c (spec_after_sales p v1 v2)
                (cmd(''sell_attack'' := None, ''sell_defense'' := None))
          \<and> (priced (cfg p) \<and> dom cmd \<subseteq> {''sell_attack'', ''sell_defense''} \<longrightarrow>
               apply_commands c p cmd
                 = returns ((spec_after_sales p v1 v2)\<lparr>pending_expands := 0\<rparr>))"
    if "cmd_int cmd ''sell_attack'' = Inr v1" "cmd_int cmd ''sell_defense'' = Inr v2"
    using sales_first [OF assms(4,5) that, of c] sales_only_commands [OF _ so that, of c]
    by blast
  have d: "0 \<le> gold r \<and> 0 \<le> attack r \<and> 0 \<le> defense r"
    if "apply_commands c p cmd = Some (Inr r)" for r
    using apply_commands_partial [OF rf so that] by (simp add: sound_def)
  have e: "\<exists>out. apply_commands c p cmd = Some out \<and> (numeric cmd \<longrightarrow> (\<exists>r. out = Inr r))"
    if "priced (cfg p)"
    using apply_commands_sound [OF that so, of c cmd] by blast
  show ?thesis
    using a b d e refund_attack_eq [OF assms(4), of n] refund_defense_eq [OF assms(5), of n]
      spec_sold_bounds [OF assms(4), of n] spec_sold_bounds [OF assms(5), of n]
    by blast
qed

lemma oversell_test:
  "apply_commands settings upkeep_player oversell_cmd
   = Some (Inr (upkeep_player\<lparr>attack := 0, gold := 32\<rparr>))"
  by (simp add: apply_commands_def and_then_simps returns_def cmd_int_def cmd_get_def
        oversell_cmd_def refund_attack_def refund_defense_def pay_for_expands_def
        buy_attack_def buy_defense_def buy_attack_loop.simps buy_defense_loop.simps
        attack_price_def defense_price_def upkeep_player_eq settings_def Let_def)

theorem apply_commands_sanitizes_witness:
  "0 \<le> ATK_BASE (cfg upkeep_player) \<and> 0 \<le> DEF_BASE (cfg upkeep_player)
   \<and> 0 \<le> gold upkeep_player \<and> 0 \<le> attack upkeep_player \<and> 0 \<le> defense upkeep_player
   \<and> priced (cfg upkeep_player)
   \<and> cmd_int sell_five_cmd ''sell_attack'' = Inr 5
   \<and> cmd_int sell_five_cmd ''sell_defense'' = Inr 0
   \<and> dom sell_five_cmd \<subseteq> {''sell_attack'', ''sell_defense''}
   \<and> apply_commands settings upkeep_player sell_five_cmd
       = Some (Inr (upkeep_player\<lparr>attack := 0, gold := 32\<rparr>))
   \<and> apply_commands settings upkeep_player oversell_cmd
       = Some (Inr (upkeep_player\<lparr>attack := 0, gold := 32\<rparr>))
   \<and> fst (refund_attack upkeep_player 5) = 3 * (20 div 2)
   \<and> attack (snd (refund_attack upkeep_player 5)) = 0"
proof -
  have h: "0 \<le> ATK_BASE (cfg upkeep_player)" "0 \<le> DEF_BASE (cfg upkeep_player)"
    "0 \<le> gold upkeep_player" "0 \<le> attack upkeep_player" "0 \<le> defense upkeep_player"
    by (simp_all add: upkeep_player_eq settings_def)
  have k: "priced (cfg upkeep_player)"
    "cmd_int sell_five_cmd ''sell_attack'' = Inr 5"
    "cmd_int sell_five_cmd ''sell_defense'' = Inr 0"
    "dom sell_five_cmd \<subseteq> {''sell_attack'', ''sell_defense''}"
    by (simp_all add: upkeep_player_eq settings_def priced_def sell_five_cmd_def cmd_int_def
          cmd_get_def)
  have a: "(spec_after_sales upkeep_player 5 0)\<lparr>pending_expands := 0\<rparr>
           = upkeep_player\<lparr>attack := 0, gold := 32\<rparr>"
    by (simp add: upkeep_player_eq settings_def spec_sold_def spec_after_sales_def)
  have r: "fst (refund_attack upkeep_player 5) = 3 * (20 div 2)"
    "attack (snd (refund_attack upkeep_player 5)) = 0"
    by (simp_all add: upkeep_player_eq settings_def refund_attack_def Let_def)
  from apply_commands_sanitizes [OF h, of settings sell_five_cmd 5 0 5] k
  have "apply_commands settings upkeep_player sell_five_cmd
        = returns ((spec_after_sales upkeep_player 5 0)\<lparr>pending_expands := 0\<rparr>)"
    by blast
  then have "apply_commands settings upkeep_player sell_five_cmd
        = Some (Inr (upkeep_player\<lparr>attack := 0, gold := 32\<rparr>))"
    by (simp only: a returns_def)
  then show ?thesis using h k r oversell_test by blast
qed

lemma seller_eq:
  "seller = \<lparr> cfg = negative_base, gold = 0, territory = 30, attack = 2, defense = 0,
     expanded_total = 0, pending_expands = 0, has_enemy_intel = False \<rparr>"
  by (simp add: seller_def new_player_def negative_base_def settings_def)

lemma negative_base_fields:
  "ATK_BASE negative_base = - 7" "ATK_K negative_base = 1" "DEF_BASE negative_base = 9"
  "DEF_K negative_base = 3" "EXPAND_BASE negative_base = 10" "EXPAND_STEP negative_base = 1"
  "SCOUT_COST negative_base = 20"
  by (simp_all add: negative_base_def settings_def)

text \<open>
  Claim C10 as stated fails. The settings accept any integers. With an attack base price
  of -7 the refund per unit is \<open>floor(-7 / 2) = -4\<close>: a player with no gold who sells two
  attack units is left with -8 gold.
\<close>

theorem negative_refund:
  "0 \<le> gold seller \<and> 0 \<le> attack seller \<and> 0 \<le> defense seller
   \<and> apply_commands negative_base seller sell_two_cmd
       = Some (Inr (seller\<lparr>attack := 0, gold := - 8\<rparr>))"
  by (simp add: apply_commands_def and_then_simps returns_def cmd_int_def cmd_get_def
        sell_two_cmd_def refund_attack_def refund_defense_def pay_for_expands_def
        buy_attack_def buy_defense_def buy_attack_loop.simps buy_defense_loop.simps
        attack_price_def defense_price_def seller_eq negative_base_fields Let_def)







lemma apply_upkeep_paid:
  assumes "upkeep_cost p \<le> gold p"
  shows "apply_upkeep p = Some (p\<lparr>gold := gold p - upkeep_cost p\<rparr>)"
  using assms by (simp add: apply_upkeep_def Let_def)



























lemma one_hypothesis_fails:
  "\<not> 0 < ATK_BASE free_attack \<and> 0 \<le> ATK_K free_attack \<and> 0 < DEF_BASE free_attack
     \<and> 0 \<le> DEF_K free_attack \<and> 0 \<le> START_ATTACK free_attack \<and> 0 \<le> START_DEFENSE free_attack"
  "0 < ATK_BASE free_defense \<and> 0 \<le> ATK_K free_defense \<and> \<not> 0 < DEF_BASE free_defense
     \<and> 0 \<le> DEF_K free_defense \<and> 0 \<le> START_ATTACK free_defense
     \<and> 0 \<le> START_DEFENSE free_defense"
  "0 < ATK_BASE falling_attack \<and> \<not> 0 \<le> ATK_K falling_attack \<and> 0 < DEF_BASE falling_attack
     \<and> 0 \<le> DEF_K falling_attack \<and> 0 \<le> START_ATTACK falling_attack
     \<and> 0 \<le> START_DEFENSE falling_attack"
  "0 < ATK_BASE falling_defense \<and> 0 \<le> ATK_K falling_defense \<and> 0 < DEF_BASE falling_defense
     \<and> \<not> 0 \<le> DEF_K falling_defense \<and> 0 \<le> START_ATTACK falling_defense
     \<and> 0 \<le> START_DEFENSE falling_defense"
  "priced owed_attack \<and> \<not> 0 \<le> START_ATTACK owed_attack \<and> 0 \<le> START_DEFENSE owed_attack"
  "priced owed_defense \<and> 0 \<le> START_ATTACK owed_defense \<and> \<not> 0 \<le> START_DEFENSE owed_defense"
  by (simp_all add: priced_def free_attack_def free_defense_def falling_attack_def
        falling_defense_def owed_attack_def owed_defense_def settings_def)

lemma untame_examples:
  "\<not> tame none_strategy" "\<not> tame unformattable_strategy" "\<not> tame interrupting_strategy"
  "\<not> tame unprintable_strategy"
  by (auto simp: tame_def none_strategy_def unformattable_strategy_def
        interrupting_strategy_def unprintable_strategy_def numeric_def numeric_keys_def)



end
